theory Spec2Isabelle
  imports Main "HOL-Library.Product_Lexorder"
begin

section \<open>Data model\<close>

text \<open>
  Times follow Python's \<^verbatim>\<open>datetime\<close> module at microsecond resolution.
  A calendar date is its proleptic Gregorian ordinal (\<^verbatim>\<open>date.toordinal()\<close>,
  1 for 0001-01-01, 3652059 for 9999-12-31); a time of day is the number of
  microseconds since midnight; a naive datetime is the number of microseconds since
  0001-01-01 00:00:00; an aware datetime (an instant) is a point of the time line,
  counted in microseconds.
\<close>

type_synonym date = int
type_synonym time_of_day = nat
type_synonym naive_datetime = int
type_synonym instant = int

definition us_per_day :: int where
  "us_per_day = 86400000000"

definition max_ordinal :: int where
  "max_ordinal = 3652059"

definition hm :: "nat \<Rightarrow> nat \<Rightarrow> time_of_day" where
  \<comment> \<open>\<^verbatim>\<open>time(h, m)\<close>\<close>
  "hm h m = (h * 60 + m) * 60000000"

definition combine :: "date \<Rightarrow> time_of_day \<Rightarrow> naive_datetime" where
  \<comment> \<open>\<^verbatim>\<open>datetime.combine(d, t)\<close>\<close>
  "combine d t = (d - 1) * us_per_day + int t"

definition representable :: "naive_datetime \<Rightarrow> bool" where
  \<comment> \<open>between \<^verbatim>\<open>datetime.min\<close> and \<^verbatim>\<open>datetime.max\<close>\<close>
  "representable x = (0 \<le> x \<and> x < max_ordinal * us_per_day)"

definition time_of :: "naive_datetime \<Rightarrow> time_of_day" where
  \<comment> \<open>\<^verbatim>\<open>dt.time()\<close>\<close>
  "time_of x = nat (x mod us_per_day)"

definition date_of :: "naive_datetime \<Rightarrow> date" where
  \<comment> \<open>\<^verbatim>\<open>dt.date()\<close>\<close>
  "date_of x = x div us_per_day + 1"

text \<open>
  Modelled from the spec: the model classes \<^verbatim>\<open>Appointment\<close>,
  \<^verbatim>\<open>Ticket\<close> and \<^verbatim>\<open>AppointmentStatus\<close> are not among the sources. The
  records hold the fields the service reads and writes. \<^verbatim>\<open>appointment_date\<close>
  is kept as an instant, since the completed view compares it with aware datetimes;
  \<^verbatim>\<open>hour\<close> is a time of day; the status reference is nullable; a null
  \<^verbatim>\<open>deleted_at\<close> means the row is active.
\<close>

record appointment =
  pk :: nat
  patient :: nat
  therapist :: nat
  appointment_date :: instant
  hour :: time_of_day
  appointment_status :: "nat option"
  deleted_at :: "instant option"

record ticket =
  ticket_pk :: nat
  ticket_appointment :: nat
  ticket_number :: nat
  ticket_deleted_at :: "instant option"

record status_row =
  status_pk :: nat
  name :: string
  status_deleted_at :: "instant option"

record store =
  appointments :: "appointment list"
  tickets :: "ticket list"
  statuses :: "status_row list"

text \<open>
  The process-wide surroundings of a call: the clock, the configured time zone and the
  ISO parser of the standard library. \<^verbatim>\<open>zone\<close> is \<^verbatim>\<open>None\<close> when
  \<^verbatim>\<open>ZoneInfo\<close> could not be imported, and otherwise the conversion
  \<^verbatim>\<open>make_aware(_, tz)\<close> of a naive datetime in the zone of
  \<^verbatim>\<open>settings.TIME_ZONE\<close>; \<^verbatim>\<open>default_zone\<close> is \<^verbatim>\<open>make_aware\<close> with
  no zone given. The setting names a zone the library knows, so that building the zone
  does not fail. \<^verbatim>\<open>fromisoformat\<close> is \<^verbatim>\<open>None\<close> where the library raises
  \<^verbatim>\<open>ValueError\<close>.
\<close>

record env =
  now :: instant
  today :: date
  zone :: "(naive_datetime \<Rightarrow> instant) option"
  default_zone :: "naive_datetime \<Rightarrow> instant"
  fromisoformat :: "string \<Rightarrow> naive_datetime option"

datatype exc =
  DoesNotExist
  | MultipleObjectsReturned
  | ValueError
  | OverflowError
  | NegativeIndexing
  | IntegrityError
  | Http404
  | DatabaseError string

text \<open>
  A \<^verbatim>\<open>Response\<close> is its payload and its HTTP status. The serializer is not
  among the sources: a serialized appointment is the appointment itself. The accented
  letters of the messages are written without their accents.
  \<^verbatim>\<open>ErrorExc m e\<close> is the payload \<^verbatim>\<open>{'error': f'm: {str(e)}'}\<close>.
\<close>

datatype payload =
  Error string
  | ErrorExc string exc
  | ErrorDetails string
  | Message string
  | Created appointment nat
  | Detail appointment
  | Listing nat "appointment list"
  | Availability bool nat

datatype response = Response payload nat

fun status_code :: "response \<Rightarrow> nat" where
  "status_code (Response p c) = c"

fun data :: "response \<Rightarrow> payload" where
  "data (Response p c) = p"

section \<open>Query sets\<close>

definition exclude :: "('a \<Rightarrow> bool) \<Rightarrow> 'a list \<Rightarrow> 'a list" where
  \<comment> \<open>\<^verbatim>\<open>queryset.exclude(...)\<close> on a column that is not nullable\<close>
  "exclude P xs = filter (\<lambda>x. \<not> P x) xs"

definition date_lookup :: "env \<Rightarrow> date \<Rightarrow> instant" where
  \<comment> \<open>a \<^verbatim>\<open>date\<close> given as lookup value for \<^verbatim>\<open>appointment_date\<close>: midnight
      of that day, made aware in the default zone\<close>
  "date_lookup e d = default_zone e (combine d 0)"

text \<open>
  Every operation of the service wraps its body in \<^verbatim>\<open>try\<close> with a final
  \<^verbatim>\<open>except Exception\<close>. An operation yields \<open>Inr r\<close> when it returns the
  response \<open>r\<close> and \<open>Inl x\<close> when the exception \<open>x\<close> leaves it.
\<close>

type_synonym outcome = "exc + response"

definition objects_get :: "('a \<Rightarrow> bool) \<Rightarrow> 'a list \<Rightarrow> exc + 'a" where
  \<comment> \<open>\<^verbatim>\<open>Model.objects.get(...)\<close>\<close>
  "objects_get P xs =
     (case filter P xs of
        [] \<Rightarrow> Inl DoesNotExist
      | [x] \<Rightarrow> Inr x
      | _ \<Rightarrow> Inl MultipleObjectsReturned)"

definition slice :: "'a list \<Rightarrow> int \<Rightarrow> int \<Rightarrow> exc + 'a list" where
  \<comment> \<open>\<^verbatim>\<open>queryset[start:stop]\<close>; the ORM refuses negative bounds\<close>
  "slice qs start stop =
     (if start < 0 \<or> stop < 0 then Inl NegativeIndexing
      else Inr (take (nat (stop - start)) (drop (nat start) qs)))"

definition order_by_desc :: "appointment list \<Rightarrow> appointment list" where
  \<comment> \<open>\<^verbatim>\<open>order_by('-appointment_date', '-hour')\<close>\<close>
  "order_by_desc qs = rev (sort_key (\<lambda>a. (appointment_date a, hour a)) qs)"

text \<open>
  The filter bag and the pagination are dictionaries; a key that is absent is
  \<open>None\<close>. Identifiers are natural numbers and the three date keys hold strings.
  A dictionary is truthy when it has a key; a key is never stored with the value
  \<^verbatim>\<open>None\<close>. Page numbers and page sizes are natural numbers.
\<close>

record filters =
  flt_appointment_date :: "date option"
  flt_appointment_status :: "nat option"
  flt_patient :: "nat option"
  flt_therapist :: "nat option"
  flt_date :: "string option"
  flt_start_date :: "string option"
  flt_end_date :: "string option"

record pagination =
  page :: "nat option"
  page_size :: "nat option"

definition no_filters :: filters where
  "no_filters = \<lparr>flt_appointment_date = None, flt_appointment_status = None,
     flt_patient = None, flt_therapist = None, flt_date = None, flt_start_date = None,
     flt_end_date = None\<rparr>"

fun truthy_filters :: "filters option \<Rightarrow> bool" where
  "truthy_filters None = False"
| "truthy_filters (Some f) = (f \<noteq> no_filters)"

fun truthy_pagination :: "pagination option \<Rightarrow> bool" where
  "truthy_pagination None = False"
| "truthy_pagination (Some p) = (page p \<noteq> None \<or> page_size p \<noteq> None)"

fun truthy_id :: "nat option \<Rightarrow> bool" where
  "truthy_id None = False"
| "truthy_id (Some n) = (n \<noteq> 0)"

fun truthy_str :: "string option \<Rightarrow> bool" where
  "truthy_str None = False"
| "truthy_str (Some s) = (s \<noteq> [])"

definition filter_opt :: "'b option \<Rightarrow> ('b \<Rightarrow> 'a \<Rightarrow> bool) \<Rightarrow> 'a list \<Rightarrow> 'a list" where
  \<comment> \<open>\<^verbatim>\<open>if key in filters: queryset = queryset.filter(...)\<close>\<close>
  "filter_opt v P qs = (case v of None \<Rightarrow> qs | Some x \<Rightarrow> filter (P x) qs)"

definition paginate :: "pagination \<Rightarrow> 'a list \<Rightarrow> exc + 'a list" where
  "paginate p qs =
     (let pg = (case page p of None \<Rightarrow> 1 | Some n \<Rightarrow> int n);
          sz = (case page_size p of None \<Rightarrow> 10 | Some n \<Rightarrow> int n);
          start = (pg - 1) * sz;
          stop = start + sz
      in slice qs start stop)"

section \<open>The appointment service\<close>

subsection \<open>Listing\<close>

definition active :: "store \<Rightarrow> appointment list" where
  \<comment> \<open>\<^verbatim>\<open>Appointment.objects.filter(deleted_at__isnull=True)\<close>\<close>
  "active s = filter (\<lambda>a. deleted_at a = None) (appointments s)"

definition list_all_filtered :: "env \<Rightarrow> store \<Rightarrow> filters option \<Rightarrow> appointment list" where
  "list_all_filtered e s fo =
     (let queryset = active s in
      case fo of
        None \<Rightarrow> queryset
      | Some f \<Rightarrow>
          if \<not> truthy_filters fo then queryset
          else
            filter_opt (flt_therapist f) (\<lambda>v a. therapist a = v)
              (filter_opt (flt_patient f) (\<lambda>v a. patient a = v)
                 (filter_opt (flt_appointment_status f) (\<lambda>v a. appointment_status a = Some v)
                    (filter_opt (flt_appointment_date f)
                       (\<lambda>v a. appointment_date a = date_lookup e v) queryset))))"

definition list_all :: "env \<Rightarrow> store \<Rightarrow> filters option \<Rightarrow> pagination option \<Rightarrow> outcome" where
  "list_all e s fo po =
     (let queryset = list_all_filtered e s fo;
          sliced = (case po of
                      None \<Rightarrow> Inr queryset
                    | Some p \<Rightarrow> if truthy_pagination po then paginate p queryset
                                else Inr queryset)
      in case sliced of
           Inl x \<Rightarrow> Inr (Response (ErrorExc ''Error al listar las citas'' x) 500)
         | Inr qs \<Rightarrow> Inr (Response (Listing (length qs) qs) 200))"

subsection \<open>Completed appointments\<close>

definition completed_status_id :: "store \<Rightarrow> exc + nat option" where
  \<comment> \<open>the inner \<^verbatim>\<open>try\<close>: only \<^verbatim>\<open>DoesNotExist\<close> is caught there\<close>
  "completed_status_id s =
     (case objects_get (\<lambda>r. name r = ''Completado'') (statuses s) of
        Inr completed_status \<Rightarrow> Inr (Some (status_pk completed_status))
      | Inl DoesNotExist \<Rightarrow> Inr None
      | Inl x \<Rightarrow> Inl x)"

definition completed_or_past :: "env \<Rightarrow> nat option \<Rightarrow> appointment list \<Rightarrow> appointment list" where
  \<comment> \<open>\<^verbatim>\<open>if completed_status_id: ... else: ...\<close>, written twice in the source\<close>
  "completed_or_past e completed_id qs =
     (if truthy_id completed_id
      then filter (\<lambda>a. appointment_status a = completed_id) qs
      else filter (\<lambda>a. appointment_date a < date_lookup e (today e)) qs)"

definition make_aware :: "env \<Rightarrow> naive_datetime \<Rightarrow> instant" where
  \<comment> \<open>\<^verbatim>\<open>make_aware(dt, tz) if tz else make_aware(dt)\<close>\<close>
  "make_aware e x = (case zone e of Some z \<Rightarrow> z x | None \<Rightarrow> default_zone e x)"

definition parse_date :: "env \<Rightarrow> string \<Rightarrow> exc + date" where
  \<comment> \<open>\<^verbatim>\<open>datetime.fromisoformat(s).date()\<close>\<close>
  "parse_date e str =
     (case fromisoformat e str of None \<Rightarrow> Inl ValueError | Some x \<Rightarrow> Inr (date_of x))"

definition next_midnight :: "date \<Rightarrow> exc + naive_datetime" where
  \<comment> \<open>midnight of the following day; the addition of one day overflows after
      9999-12-31\<close>
  "next_midnight d =
     (if representable (combine (d + 1) 0) then Inr (combine (d + 1) 0)
      else Inl OverflowError)"

definition date_window :: "env \<Rightarrow> filters \<Rightarrow> appointment list \<Rightarrow> exc + appointment list" where
  "date_window e f qs =
     (if truthy_str (flt_date f) then
        (case parse_date e (case flt_date f of Some str \<Rightarrow> str | None \<Rightarrow> []) of
           Inl x \<Rightarrow> Inl x
         | Inr base_date \<Rightarrow>
             (case next_midnight base_date of
                Inl x \<Rightarrow> Inl x
              | Inr end_dt \<Rightarrow>
                  Inr (filter (\<lambda>a. make_aware e (combine base_date 0) \<le> appointment_date a
                                 \<and> appointment_date a < make_aware e end_dt) qs)))
      else if truthy_str (flt_start_date f) \<and> truthy_str (flt_end_date f) then
        (case parse_date e (case flt_start_date f of Some str \<Rightarrow> str | None \<Rightarrow> []) of
           Inl x \<Rightarrow> Inl x
         | Inr s_date \<Rightarrow>
             (case parse_date e (case flt_end_date f of Some str \<Rightarrow> str | None \<Rightarrow> []) of
                Inl x \<Rightarrow> Inl x
              | Inr e_date \<Rightarrow>
                  (case next_midnight e_date of
                     Inl x \<Rightarrow> Inl x
                   | Inr end_dt \<Rightarrow>
                       Inr (filter (\<lambda>a. make_aware e (combine s_date 0) \<le> appointment_date a
                                      \<and> appointment_date a < make_aware e end_dt) qs))))
      else if truthy_str (flt_start_date f) then
        (case parse_date e (case flt_start_date f of Some str \<Rightarrow> str | None \<Rightarrow> []) of
           Inl x \<Rightarrow> Inl x
         | Inr s_date \<Rightarrow>
             Inr (filter (\<lambda>a. make_aware e (combine s_date 0) \<le> appointment_date a) qs))
      else if truthy_str (flt_end_date f) then
        (case parse_date e (case flt_end_date f of Some str \<Rightarrow> str | None \<Rightarrow> []) of
           Inl x \<Rightarrow> Inl x
         | Inr e_date \<Rightarrow>
             (case next_midnight e_date of
                Inl x \<Rightarrow> Inl x
              | Inr end_dt \<Rightarrow>
                  Inr (filter (\<lambda>a. appointment_date a < make_aware e end_dt) qs)))
      else Inr qs)"

definition other_filters :: "env \<Rightarrow> nat option \<Rightarrow> filters \<Rightarrow> appointment list \<Rightarrow> appointment list" where
  \<comment> \<open>the status, patient and therapist filters of a truthy filter bag\<close>
  "other_filters e completed_id f queryset =
     (let q1 = (case flt_appointment_status f of
                  Some v \<Rightarrow> filter (\<lambda>a. appointment_status a = Some v) queryset
                | None \<Rightarrow> completed_or_past e completed_id queryset);
          q2 = (if truthy_id (flt_patient f)
                then filter (\<lambda>a. Some (patient a) = flt_patient f) q1 else q1)
      in if truthy_id (flt_therapist f)
         then filter (\<lambda>a. Some (therapist a) = flt_therapist f) q2 else q2)"

definition completed_filtered :: "env \<Rightarrow> store \<Rightarrow> filters option \<Rightarrow> exc + appointment list" where
  \<comment> \<open>the query set before \<^verbatim>\<open>total = queryset.count()\<close>\<close>
  "completed_filtered e s fo =
     (case completed_status_id s of
        Inl x \<Rightarrow> Inl x
      | Inr completed_id \<Rightarrow>
          (let queryset = active s in
           case fo of
             None \<Rightarrow> Inr (completed_or_past e completed_id queryset)
           | Some f \<Rightarrow>
               if \<not> truthy_filters fo then Inr (completed_or_past e completed_id queryset)
               else date_window e f (other_filters e completed_id f queryset)))"

definition get_completed_appointments ::
  "env \<Rightarrow> store \<Rightarrow> filters option \<Rightarrow> pagination option \<Rightarrow> outcome" where
  "get_completed_appointments e s fo po =
     (case completed_filtered e s fo of
        Inl x \<Rightarrow> Inr (Response (ErrorExc ''Error al obtener citas completadas'' x) 500)
      | Inr queryset \<Rightarrow>
          (let total = length queryset;
               sliced = (case po of
                           None \<Rightarrow> Inr queryset
                         | Some p \<Rightarrow> if truthy_pagination po
                                     then paginate p (order_by_desc queryset)
                                     else Inr queryset)
           in case sliced of
                Inl x \<Rightarrow> Inr (Response (ErrorExc ''Error al obtener citas completadas'' x) 500)
              | Inr qs \<Rightarrow> Inr (Response (Listing total qs) 200)))"

subsection \<open>Date ranges and pending appointments\<close>

definition get_by_date_range :: "env \<Rightarrow> store \<Rightarrow> date \<Rightarrow> date \<Rightarrow> filters option \<Rightarrow> outcome" where
  "get_by_date_range e s start_date end_date fo =
     (let queryset = filter (\<lambda>a. date_lookup e start_date \<le> appointment_date a
                                \<and> appointment_date a \<le> date_lookup e end_date
                                \<and> deleted_at a = None) (appointments s);
          queryset = (case fo of
                        None \<Rightarrow> queryset
                      | Some f \<Rightarrow>
                          if \<not> truthy_filters fo then queryset
                          else
                            filter_opt (flt_therapist f) (\<lambda>v a. therapist a = v)
                              (filter_opt (flt_patient f) (\<lambda>v a. patient a = v)
                                 (filter_opt (flt_appointment_status f)
                                    (\<lambda>v a. appointment_status a = Some v) queryset)))
      in Inr (Response (Listing (length queryset) queryset) 200))"

definition pending_status_id :: "store \<Rightarrow> exc + nat option" where
  "pending_status_id s =
     (case objects_get (\<lambda>r. name r = ''Pendiente'') (statuses s) of
        Inr pending_status \<Rightarrow> Inr (Some (status_pk pending_status))
      | Inl DoesNotExist \<Rightarrow> Inr None
      | Inl x \<Rightarrow> Inl x)"

definition pending_or_upcoming :: "env \<Rightarrow> nat option \<Rightarrow> appointment list \<Rightarrow> appointment list" where
  "pending_or_upcoming e pending_id qs =
     (if truthy_id pending_id
      then filter (\<lambda>a. appointment_status a = pending_id) qs
      else filter (\<lambda>a. appointment_date a \<ge> date_lookup e (today e)) qs)"

definition get_pending_appointments :: "env \<Rightarrow> store \<Rightarrow> filters option \<Rightarrow> outcome" where
  "get_pending_appointments e s fo =
     (case pending_status_id s of
        Inl x \<Rightarrow> Inr (Response (ErrorExc ''Error al obtener citas pendientes'' x) 500)
      | Inr pending_id \<Rightarrow>
          (let queryset = active s;
               queryset =
                 (case fo of
                    None \<Rightarrow> pending_or_upcoming e pending_id queryset
                  | Some f \<Rightarrow>
                      if \<not> truthy_filters fo then pending_or_upcoming e pending_id queryset
                      else
                        filter_opt (flt_therapist f) (\<lambda>v a. therapist a = v)
                          (filter_opt (flt_patient f) (\<lambda>v a. patient a = v)
                             (case flt_appointment_status f of
                                Some v \<Rightarrow> filter (\<lambda>a. appointment_status a = Some v) queryset
                              | None \<Rightarrow> pending_or_upcoming e pending_id queryset)))
           in Inr (Response (Listing (length queryset) queryset) 200)))"

subsection \<open>Availability\<close>

definition conflicting_appointments ::
  "env \<Rightarrow> store \<Rightarrow> date \<Rightarrow> naive_datetime \<Rightarrow> naive_datetime \<Rightarrow> appointment list" where
  "conflicting_appointments e s d start_datetime end_datetime =
     exclude (\<lambda>a. hour a \<le> time_of start_datetime)
       (exclude (\<lambda>a. hour a \<ge> time_of end_datetime)
          (filter (\<lambda>a. appointment_date a = date_lookup e d \<and> deleted_at a = None)
             (appointments s)))"

definition check_availability :: "env \<Rightarrow> store \<Rightarrow> date \<Rightarrow> time_of_day \<Rightarrow> int \<Rightarrow> outcome" where
  "check_availability e s d h duration =
     (let start_datetime = combine d h;
          end_datetime = start_datetime + duration * 60000000
      in if \<not> representable end_datetime
         then Inr (Response (ErrorExc ''Error al verificar disponibilidad'' OverflowError) 500)
         else
           let conflicting = conflicting_appointments e s d start_datetime end_datetime;
               is_available = (conflicting = [])
           in Inr (Response
                (Availability is_available (if \<not> is_available then length conflicting else 0))
                200))"

subsection \<open>Get and soft delete\<close>

definition get_by_id :: "store \<Rightarrow> nat \<Rightarrow> outcome" where
  "get_by_id s appointment_id =
     (case objects_get (\<lambda>a. pk a = appointment_id \<and> deleted_at a = None) (appointments s) of
        Inr appointment \<Rightarrow> Inr (Response (Detail appointment) 200)
      | Inl DoesNotExist \<Rightarrow> Inr (Response (Error ''Cita no encontrada'') 404)
      | Inl x \<Rightarrow> Inr (Response (ErrorExc ''Error al obtener la cita'' x) 500))"

text \<open>
  Modelled from the spec: the method \<^verbatim>\<open>soft_delete\<close> of the two model classes is
  not among the sources. It marks the row of the instance's primary key with the
  current time as deletion timestamp and removes nothing.
\<close>

definition appointment_soft_delete :: "env \<Rightarrow> appointment \<Rightarrow> appointment list \<Rightarrow> appointment list" where
  "appointment_soft_delete e inst rows =
     map (\<lambda>r. if pk r = pk inst then inst\<lparr>deleted_at := Some (now e)\<rparr> else r) rows"

definition ticket_soft_delete :: "env \<Rightarrow> ticket \<Rightarrow> ticket list \<Rightarrow> ticket list" where
  "ticket_soft_delete e inst rows =
     map (\<lambda>r. if ticket_pk r = ticket_pk inst then inst\<lparr>ticket_deleted_at := Some (now e)\<rparr>
               else r) rows"

definition delete :: "env \<Rightarrow> store \<Rightarrow> nat \<Rightarrow> outcome \<times> store" where
  "delete e s appointment_id =
     (case objects_get (\<lambda>a. pk a = appointment_id \<and> deleted_at a = None) (appointments s) of
        Inl DoesNotExist \<Rightarrow> (Inr (Response (Error ''Cita no encontrada'') 404), s)
      | Inl x \<Rightarrow> (Inr (Response (ErrorExc ''Error al eliminar la cita'' x) 500), s)
      | Inr appointment \<Rightarrow>
          (let s1 = s\<lparr>appointments := appointment_soft_delete e appointment (appointments s)\<rparr>
           in case objects_get (\<lambda>t. ticket_appointment t = pk appointment) (tickets s1) of
                Inr ticket \<Rightarrow>
                  (Inr (Response (Message ''Cita eliminada exitosamente'') 200),
                   s1\<lparr>tickets := ticket_soft_delete e ticket (tickets s1)\<rparr>)
              | Inl DoesNotExist \<Rightarrow>
                  (Inr (Response (Message ''Cita eliminada exitosamente'') 200), s1)
              | Inl x \<Rightarrow>
                  (Inr (Response (ErrorExc ''Error al eliminar la cita'' x) 500), s1)))"

subsection \<open>Create\<close>

text \<open>
  The request data of \<^verbatim>\<open>create\<close>: the three required keys may be absent.
  The serializer and the signal receiver that issues the ticket are not among the
  sources; they are parameters of the model. \<^verbatim>\<open>is_valid\<close> is the verdict of the
  serializer, \<^verbatim>\<open>on_save\<close> is what the receiver of the save signal does to the
  ticket table for the new appointment.
\<close>

record appointment_data =
  d_patient :: "nat option"
  d_appointment_date :: "instant option"
  d_hour :: "time_of_day option"
  d_therapist :: nat
  d_appointment_status :: "nat option"

record collaborators =
  is_valid :: "appointment_data \<Rightarrow> bool"
  on_save :: "appointment \<Rightarrow> ticket list \<Rightarrow> exc + ticket list"

definition next_pk :: "nat list \<Rightarrow> nat" where
  \<comment> \<open>a key for the next row: above every key in the table. The sequence of the
      database moreover never gives the key of a removed row again; only the freshness of
      the key is used here.\<close>
  "next_pk ks = Suc (fold max ks 0)"

fun is_database_error :: "exc \<Rightarrow> bool" where
  "is_database_error IntegrityError = True"
| "is_database_error (DatabaseError msg) = True"
| "is_database_error x = False"

definition atomic ::
  "(store \<Rightarrow> (exc + 'r) \<times> store \<times> bool) \<Rightarrow> store \<Rightarrow> (exc + 'r) \<times> store" where
  \<comment> \<open>\<^verbatim>\<open>@transaction.atomic\<close>. The body yields its result, the store with its
      writes, and whether a database error inside the block has marked the transaction for
      rollback. The writes are rolled back when an exception leaves the body or the
      transaction is marked, and committed otherwise.\<close>
  "atomic body s =
     (case body s of
        (Inl x, s', needs_rollback) \<Rightarrow> (Inl x, s)
      | (Inr r, s', needs_rollback) \<Rightarrow> (Inr r, if needs_rollback then s else s'))"

definition serializer_save :: "collaborators \<Rightarrow> appointment_data \<Rightarrow> nat \<Rightarrow> instant \<Rightarrow> time_of_day
    \<Rightarrow> store \<Rightarrow> (exc + appointment) \<times> store" where
  \<comment> \<open>\<^verbatim>\<open>serializer.save()\<close>: the row is inserted, then the save signal runs\<close>
  "serializer_save c d p ad h s =
     (let appointment = \<lparr>pk = next_pk (map pk (appointments s)), patient = p,
            therapist = d_therapist d, appointment_date = ad, hour = h,
            appointment_status = d_appointment_status d, deleted_at = None\<rparr>;
          s1 = s\<lparr>appointments := appointments s @ [appointment]\<rparr>
      in case on_save c appointment (tickets s1) of
           Inl x \<Rightarrow> (Inl x, s1)
         | Inr ts \<Rightarrow> (Inr appointment, s1\<lparr>tickets := ts\<rparr>))"

definition create_body ::
  "collaborators \<Rightarrow> appointment_data \<Rightarrow> store \<Rightarrow> outcome \<times> store \<times> bool" where
  "create_body c d s =
     (case d_patient d of
        None \<Rightarrow> (Inr (Response (Error ''El campo patient es requerido'') 400), s, False)
      | Some p \<Rightarrow>
     (case d_appointment_date d of
        None \<Rightarrow> (Inr (Response (Error ''El campo appointment_date es requerido'') 400), s, False)
      | Some ad \<Rightarrow>
     (case d_hour d of
        None \<Rightarrow> (Inr (Response (Error ''El campo hour es requerido'') 400), s, False)
      | Some h \<Rightarrow>
          if is_valid c d then
            (case serializer_save c d p ad h s of
               (Inl x, s1) \<Rightarrow>
                 (Inr (Response (ErrorExc ''Error al crear la cita'' x) 500), s1,
                  is_database_error x)
             | (Inr appointment, s1) \<Rightarrow>
                 (case objects_get (\<lambda>t. ticket_appointment t = pk appointment) (tickets s1) of
                    Inr ticket \<Rightarrow>
                      (Inr (Response (Created appointment (ticket_number ticket)) 201), s1, False)
                  | Inl DoesNotExist \<Rightarrow>
                      (Inr (Response (Error ''Error al crear el ticket automatico'') 500), s1, False)
                  | Inl x \<Rightarrow>
                      (Inr (Response (ErrorExc ''Error al crear la cita'' x) 500), s1, False)))
          else (Inr (Response (ErrorDetails ''Datos invalidos'') 400), s, False))))"

definition create :: "collaborators \<Rightarrow> appointment_data \<Rightarrow> store \<Rightarrow> outcome \<times> store" where
  "create c d = atomic (create_body c d)"

section \<open>The status view\<close>

definition digit_char :: "nat \<Rightarrow> char" where
  \<comment> \<open>the decimal digit of a number below ten\<close>
  "digit_char n = ''0123456789'' ! n"

fun str_nat :: "nat \<Rightarrow> string" where
  \<comment> \<open>\<^verbatim>\<open>str(n)\<close>\<close>
  "str_nat n = (if n < 10 then [digit_char n] else str_nat (n div 10) @ [digit_char (n mod 10)])"

declare str_nat.simps [simp del]

fun starts_with :: "string \<Rightarrow> string \<Rightarrow> bool" where
  "starts_with [] ys = True"
| "starts_with (x # xs) [] = False"
| "starts_with (x # xs) (y # ys) = (x = y \<and> starts_with xs ys)"

fun contains :: "string \<Rightarrow> string \<Rightarrow> bool" where
  \<comment> \<open>\<^verbatim>\<open>needle in haystack\<close>\<close>
  "contains needle [] = (needle = [])"
| "contains needle (y # ys) = (starts_with needle (y # ys) \<or> contains needle ys)"

definition get_object :: "store \<Rightarrow> nat \<Rightarrow> exc + status_row" where
  \<comment> \<open>the lookup of the framework in \<^verbatim>\<open>get_queryset()\<close>, which leaves deleted rows out\<close>
  "get_object s k =
     (case filter (\<lambda>r. status_pk r = k) (filter (\<lambda>r. status_deleted_at r = None) (statuses s)) of
        [] \<Rightarrow> Inl Http404
      | [r] \<Rightarrow> Inr r
      | _ \<Rightarrow> Inl MultipleObjectsReturned)"

definition appointment_set_count :: "string option \<Rightarrow> store \<Rightarrow> status_row \<Rightarrow> exc + nat" where
  \<comment> \<open>\<^verbatim>\<open>instance.appointment_set.count()\<close>; the first argument is the message of
      the database error the query meets, if any\<close>
  "appointment_set_count db_error s inst =
     (case db_error of
        Some msg \<Rightarrow> Inl (DatabaseError msg)
      | None \<Rightarrow>
          Inr (length (filter (\<lambda>a. appointment_status a = Some (status_pk inst)) (appointments s))))"

definition refusal :: "string \<Rightarrow> nat \<Rightarrow> string" where
  "refusal nm n =
     ''No se puede eliminar el estado '' @ [CHR 0x27] @ nm @ [CHR 0x27] @ '' porque tiene ''
       @ str_nat n @ '' cita(s) asociada(s). Primero asigne otro estado a esas citas.''"

definition mark_deleted :: "env \<Rightarrow> status_row \<Rightarrow> store \<Rightarrow> outcome \<times> store" where
  \<comment> \<open>\<^verbatim>\<open>instance.deleted_at = timezone.now(); instance.save(update_fields=['deleted_at'])\<close>\<close>
  "mark_deleted e inst s =
     (Inr (Response
        (Message (''Estado '' @ [CHR 0x27] @ name inst @ [CHR 0x27] @ '' eliminado correctamente''))
        200),
      s\<lparr>statuses := map (\<lambda>r. if status_pk r = status_pk inst
                               then r\<lparr>status_deleted_at := Some (now e)\<rparr> else r) (statuses s)\<rparr>)"

definition destroy :: "env \<Rightarrow> string option \<Rightarrow> store \<Rightarrow> nat \<Rightarrow> outcome \<times> store" where
  "destroy e db_error s k =
     (case get_object s k of
        Inl x \<Rightarrow> (Inr (Response (ErrorExc ''Error al eliminar el estado'' x) 500), s)
      | Inr inst \<Rightarrow>
          (case appointment_set_count db_error s inst of
             Inr appointments_count \<Rightarrow>
               if appointments_count > 0
               then (Inr (Response (Error (refusal (name inst) appointments_count)) 400), s)
               else mark_deleted e inst s
           | Inl (DatabaseError error_msg) \<Rightarrow>
               if contains ''Unknown column'' error_msg
                  \<and> contains ''appointment_status_id'' error_msg
               then mark_deleted e inst s
               else (Inr (Response
                       (ErrorExc ''Error al eliminar el estado'' (DatabaseError error_msg)) 500), s)
           | Inl x \<Rightarrow> (Inr (Response (ErrorExc ''Error al eliminar el estado'' x) 500), s)))"

section \<open>The migration of the free-text IUD type\<close>

text \<open>
  The migration reads and writes the column \<^verbatim>\<open>diu_type_id\<close> of the table
  \<^verbatim>\<open>histories\<close> with plain SQL. Before the migration the column holds free text;
  an identifier written into it is stored as its decimal text.
\<close>

record diu_type =
  diu_pk :: nat
  diu_name :: string

record history =
  history_pk :: nat
  diu_type_id :: "string option"

record database =
  diu_types :: "diu_type list"
  histories :: "history list"

record report =
  created_types :: nat
  updated_rows :: nat

definition unique_values :: "database \<Rightarrow> string list" where
  \<comment> \<open>\<^verbatim>\<open>SELECT DISTINCT diu_type_id ... WHERE diu_type_id IS NOT NULL AND diu_type_id != ''\<close>\<close>
  "unique_values db =
     remdups (concat (map (\<lambda>h. case diu_type_id h of
                                  None \<Rightarrow> []
                                | Some v \<Rightarrow> if v \<noteq> [] then [v] else []) (histories db)))"

definition get_or_create :: "string \<Rightarrow> diu_type list \<Rightarrow> exc + (diu_type \<times> bool \<times> diu_type list)" where
  \<comment> \<open>\<^verbatim>\<open>DIUType.objects.get_or_create(name=value)\<close>\<close>
  "get_or_create v ts =
     (case filter (\<lambda>t. diu_name t = v) ts of
        [] \<Rightarrow> (let t = \<lparr>diu_pk = next_pk (map diu_pk ts), diu_name = v\<rparr>
               in Inr (t, True, ts @ [t]))
      | [t] \<Rightarrow> Inr (t, False, ts)
      | _ \<Rightarrow> Inl MultipleObjectsReturned)"

fun create_types ::
  "string list \<Rightarrow> (string \<rightharpoonup> nat) \<Rightarrow> nat \<Rightarrow> diu_type list
     \<Rightarrow> exc + ((string \<rightharpoonup> nat) \<times> nat \<times> diu_type list)" where
  \<comment> \<open>the first loop; the counter is the number of rows created\<close>
  "create_types [] diu_type_mapping n ts = Inr (diu_type_mapping, n, ts)"
| "create_types (v # vs) diu_type_mapping n ts =
     (case get_or_create v ts of
        Inl x \<Rightarrow> Inl x
      | Inr (t, created, ts') \<Rightarrow>
          create_types vs (diu_type_mapping(v \<mapsto> diu_pk t)) (if created then Suc n else n) ts')"

fun update_histories ::
  "string list \<Rightarrow> (string \<rightharpoonup> nat) \<Rightarrow> nat \<Rightarrow> history list \<Rightarrow> nat \<times> history list" where
  \<comment> \<open>the second loop; the counter adds up \<^verbatim>\<open>cursor.rowcount\<close>\<close>
  "update_histories [] diu_type_mapping n hs = (n, hs)"
| "update_histories (old_value # vs) diu_type_mapping n hs =
     (case diu_type_mapping old_value of
        None \<Rightarrow> update_histories vs diu_type_mapping n hs
      | Some new_id \<Rightarrow>
          update_histories vs diu_type_mapping
            (n + length (filter (\<lambda>h. diu_type_id h = Some old_value) hs))
            (map (\<lambda>h. if diu_type_id h = Some old_value
                       then h\<lparr>diu_type_id := Some (str_nat new_id)\<rparr> else h) hs))"

definition migrate_diu_type_data :: "database \<Rightarrow> exc + (report \<times> database)" where
  "migrate_diu_type_data db =
     (case create_types (unique_values db) Map.empty 0 (diu_types db) of
        Inl x \<Rightarrow> Inl x
      | Inr (diu_type_mapping, c, ts) \<Rightarrow>
          (case update_histories (unique_values db) diu_type_mapping 0 (histories db) of
             (n, hs) \<Rightarrow>
               Inr (\<lparr>created_types = c, updated_rows = n\<rparr>, \<lparr>diu_types = ts, histories = hs\<rparr>)))"

definition migrate_twice :: "database \<Rightarrow> exc + (report \<times> database)" where
  \<comment> \<open>the forward transform run on the outcome of a first run; the report is the second run's\<close>
  "migrate_twice db =
     (case migrate_diu_type_data db of
        Inl x \<Rightarrow> Inl x
      | Inr (r, db') \<Rightarrow> migrate_diu_type_data db')"

section \<open>Roles and permissions\<close>

text \<open>
  \<^verbatim>\<open>RoleHasPermission\<close> declares two foreign keys and
  \<^verbatim>\<open>unique_together = ['permission', 'role']\<close>. The table is a list of rows; the
  operations are the writes the ORM offers on it, and the database refuses with
  \<^verbatim>\<open>IntegrityError\<close> a write that would give two rows the same pair.
\<close>

record role_has_permission =
  rhp_pk :: nat
  permission :: nat
  role :: nat

definition pair_of :: "role_has_permission \<Rightarrow> nat \<times> nat" where
  "pair_of x = (permission x, role x)"

definition rhp_create :: "nat \<Rightarrow> nat \<Rightarrow> role_has_permission list \<Rightarrow> exc + role_has_permission list" where
  "rhp_create p r rows =
     (if (p, r) \<in> set (map pair_of rows) then Inl IntegrityError
      else Inr (rows @ [\<lparr>rhp_pk = next_pk (map rhp_pk rows), permission = p, role = r\<rparr>]))"

definition rhp_update :: "nat \<Rightarrow> nat \<Rightarrow> nat \<Rightarrow> role_has_permission list \<Rightarrow> exc + role_has_permission list" where
  "rhp_update k p r rows =
     (if (p, r) \<in> set (map pair_of (filter (\<lambda>x. rhp_pk x \<noteq> k) rows)) then Inl IntegrityError
      else Inr (map (\<lambda>x. if rhp_pk x = k then x\<lparr>permission := p, role := r\<rparr> else x) rows))"

definition rhp_delete :: "nat \<Rightarrow> role_has_permission list \<Rightarrow> role_has_permission list" where
  "rhp_delete k rows = filter (\<lambda>x. rhp_pk x \<noteq> k) rows"

inductive reachable :: "role_has_permission list \<Rightarrow> bool" where
  empty: "reachable []"
| created: "reachable rows \<Longrightarrow> rhp_create p r rows = Inr rows' \<Longrightarrow> reachable rows'"
| updated: "reachable rows \<Longrightarrow> rhp_update k p r rows = Inr rows' \<Longrightarrow> reachable rows'"
| deleted: "reachable rows \<Longrightarrow> reachable (rhp_delete k rows)"

section \<open>Notions of the specification and sample data\<close>

definition non_conflicting :: "time_of_day \<Rightarrow> time_of_day \<Rightarrow> appointment \<Rightarrow> bool" where
  \<comment> \<open>the overlap rule in the words of the specification: the hour is at or after the
      end of the requested interval, or at or before its start\<close>
  "non_conflicting start_time end_time a = (hour a \<ge> end_time \<or> hour a \<le> start_time)"

definition on_date :: "env \<Rightarrow> store \<Rightarrow> date \<Rightarrow> appointment list" where
  \<comment> \<open>the appointments of a date that are not deleted\<close>
  "on_date e s d =
     filter (\<lambda>a. appointment_date a = date_lookup e d \<and> deleted_at a = None) (appointments s)"

definition env0 :: env where
  "env0 = \<lparr>now = 5000, today = 738900, zone = Some (\<lambda>x. x), default_zone = (\<lambda>x. x),
     fromisoformat = (\<lambda>str. if str = ''2024-01-15'' then Some (combine 738900 0)
                              else if str = ''2024-01-20'' then Some (combine 738905 0)
                              else None)\<rparr>"

definition appt :: "nat \<Rightarrow> date \<Rightarrow> time_of_day \<Rightarrow> nat option \<Rightarrow> appointment" where
  "appt k d h st = \<lparr>pk = k, patient = 1, therapist = 1, appointment_date = combine d 0, hour = h,
     appointment_status = st, deleted_at = None\<rparr>"

definition store_c5 :: store where
  "store_c5 = \<lparr>appointments = [appt 1 738900 (hm 10 30) None, appt 2 738900 (hm 11 0) None],
     tickets = [], statuses = []\<rparr>"

definition store_c1 :: store where
  "store_c1 = \<lparr>appointments = [appt 1 738900 (hm 9 0) None, appt 2 738900 (hm 10 0) None,
       appt 3 738901 (hm 9 0) None],
     tickets = [], statuses = []\<rparr>"

definition first_two :: pagination where
  "first_two = \<lparr>page = Some 1, page_size = Some 2\<rparr>"

definition no_ticket :: collaborators where
  \<comment> \<open>a validating serializer and a receiver that issues no ticket\<close>
  "no_ticket = \<lparr>is_valid = (\<lambda>d. True), on_save = (\<lambda>a ts. Inr ts)\<rparr>"

definition ticket_refused :: collaborators where
  \<comment> \<open>a validating serializer and a receiver whose insertion the database refuses\<close>
  "ticket_refused = \<lparr>is_valid = (\<lambda>d. True), on_save = (\<lambda>a ts. Inl IntegrityError)\<rparr>"

definition data_c2 :: appointment_data where
  "data_c2 = \<lparr>d_patient = Some 7, d_appointment_date = Some (combine 738900 0),
     d_hour = Some (hm 9 0), d_therapist = 3, d_appointment_status = None\<rparr>"

definition empty_store :: store where
  "empty_store = \<lparr>appointments = [], tickets = [], statuses = []\<rparr>"

text \<open>
  A key holds an unparsable date when its string is not empty and the parser refuses it;
  a filter bag has a bad date when the key the code parses is unparsable.
\<close>

definition unparsable :: "env \<Rightarrow> string option \<Rightarrow> bool" where
  "unparsable e v = (case v of None \<Rightarrow> False | Some str \<Rightarrow> str \<noteq> [] \<and> fromisoformat e str = None)"


definition bad_date :: "env \<Rightarrow> filters \<Rightarrow> bool" where
  "bad_date e f =
     (if truthy_str (flt_date f) then unparsable e (flt_date f)
      else unparsable e (flt_start_date f) \<or> unparsable e (flt_end_date f))"


definition store_c4 :: store where
  "store_c4 = \<lparr>appointments = [appt 1 738900 (hm 9 0) (Some 2), appt 2 738901 (hm 9 0) (Some 2)],
     tickets = [], statuses = [\<lparr>status_pk = 2, name = ''Completado'', status_deleted_at = None\<rparr>]\<rparr>"

text \<open>
  The filter bag with the key \<^verbatim>\<open>appointment_status\<close> set to a given status, and
  the bags that do not supply that key.
\<close>

definition with_status :: "nat \<Rightarrow> filters option \<Rightarrow> filters option" where
  "with_status sid fo =
     Some ((case fo of None \<Rightarrow> no_filters | Some f \<Rightarrow> f)\<lparr>flt_appointment_status := Some sid\<rparr>)"

definition status_unset :: "filters option \<Rightarrow> bool" where
  "status_unset fo = (case fo of None \<Rightarrow> True | Some f \<Rightarrow> flt_appointment_status f = None)"

text \<open>The results of a listing response (none for any other response).\<close>

definition listed :: "outcome \<Rightarrow> appointment list" where
  "listed r = (case r of Inr (Response (Listing n qs) c) \<Rightarrow> qs | _ \<Rightarrow> [])"

text \<open>
  The window of the completed view in the words of the specification, written from the
  surroundings alone: \<open>midnight e d\<close> is 00:00:00 of the day \<open>d\<close>, that is
  \<open>d - 1\<close> days of 86400000000 microseconds after 0001-01-01 00:00:00, taken in the
  configured zone (in the default zone when no zone data is at hand); a window is a pair of optional
  bounds, closed below and open above, an absent bound standing for infinity;
  \<open>spec_window\<close> takes the dates supplied under \<^verbatim>\<open>date\<close>,
  \<^verbatim>\<open>start_date\<close> and \<^verbatim>\<open>end_date\<close> in this order of precedence.
  \<open>supplied\<close> is the date a key holds (none when the key is absent or empty), and
  \<open>closing_day\<close> is the day whose following midnight closes the window; the day
  after it exists unless it is 9999-12-31.
\<close>

definition midnight :: "env \<Rightarrow> date \<Rightarrow> instant" where
  "midnight e d =
     (case zone e of
        Some z \<Rightarrow> z ((d - 1) * 86400000000)
      | None \<Rightarrow> default_zone e ((d - 1) * 86400000000))"

definition in_window :: "instant option \<times> instant option \<Rightarrow> appointment \<Rightarrow> bool" where
  "in_window w a =
     ((case fst w of None \<Rightarrow> True | Some lo \<Rightarrow> lo \<le> appointment_date a)
      \<and> (case snd w of None \<Rightarrow> True | Some hi \<Rightarrow> appointment_date a < hi))"

fun spec_window :: "env \<Rightarrow> date option \<Rightarrow> date option \<Rightarrow> date option \<Rightarrow> instant option \<times> instant option" where
  "spec_window e (Some d) sd ed = (Some (midnight e d), Some (midnight e (d + 1)))"
| "spec_window e None (Some sd) (Some ed) = (Some (midnight e sd), Some (midnight e (ed + 1)))"
| "spec_window e None (Some sd) None = (Some (midnight e sd), None)"
| "spec_window e None None (Some ed) = (None, Some (midnight e (ed + 1)))"
| "spec_window e None None None = (None, None)"

definition supplied :: "env \<Rightarrow> string option \<Rightarrow> date option" where
  "supplied e v =
     (case v of
        None \<Rightarrow> None
      | Some str \<Rightarrow>
          if str = [] then None
          else (case fromisoformat e str of
                  None \<Rightarrow> None
                | Some x \<Rightarrow> Some (x div 86400000000 + 1)))"

definition closing_day :: "env \<Rightarrow> filters \<Rightarrow> date option" where
  "closing_day e f =
     (if truthy_str (flt_date f) then supplied e (flt_date f) else supplied e (flt_end_date f))"

definition next_day_exists :: "date option \<Rightarrow> bool" where
  "next_day_exists v = (case v of None \<Rightarrow> True | Some d \<Rightarrow> 0 \<le> d \<and> d < 3652059)"

definition filters_c7 :: filters where
  "filters_c7 = no_filters\<lparr>flt_date := Some ''2024-01-15'', flt_start_date := Some ''15/01/2024''\<rparr>"

definition store_c8 :: store where
  "store_c8 = \<lparr>appointments = [appt 1 738900 (hm 9 0) None, appt 2 738900 (hm 10 0) None],
     tickets = [\<lparr>ticket_pk = 1, ticket_appointment = 1, ticket_number = 100, ticket_deleted_at = None\<rparr>],
     statuses = []\<rparr>"



text \<open>
  The invariant of the table: primary keys are distinct and so are the pairs of
  permission and role. \<open>links p r rows\<close> are the rows that link the permission \<open>p\<close>
  and the role \<open>r\<close>.
\<close>

definition well_keyed :: "role_has_permission list \<Rightarrow> bool" where
  "well_keyed rows = (distinct (map rhp_pk rows) \<and> distinct (map pair_of rows))"

definition links :: "nat \<Rightarrow> nat \<Rightarrow> role_has_permission list \<Rightarrow> role_has_permission list" where
  "links p r rows = filter (\<lambda>x. permission x = p \<and> role x = r) rows"

text \<open>
  A database with one free-text value, and what one and two runs of the forward transform
  make of it.
\<close>

definition db_c3 :: database where
  "db_c3 = \<lparr>diu_types = [],
     histories = [\<lparr>history_pk = 1, diu_type_id = Some ''Cobre''\<rparr>,
                  \<lparr>history_pk = 2, diu_type_id = None\<rparr>]\<rparr>"

definition db_c3_once :: database where
  "db_c3_once = \<lparr>diu_types = [\<lparr>diu_pk = 1, diu_name = ''Cobre''\<rparr>],
     histories = [\<lparr>history_pk = 1, diu_type_id = Some ''1''\<rparr>,
                  \<lparr>history_pk = 2, diu_type_id = None\<rparr>]\<rparr>"

definition db_c3_twice :: database where
  "db_c3_twice = \<lparr>diu_types = [\<lparr>diu_pk = 1, diu_name = ''Cobre''\<rparr>, \<lparr>diu_pk = 2, diu_name = ''1''\<rparr>],
     histories = [\<lparr>history_pk = 1, diu_type_id = Some ''2''\<rparr>,
                  \<lparr>history_pk = 2, diu_type_id = None\<rparr>]\<rparr>"

text \<open>
  The status and person filters of the completed view in the words of the specification.
  The canonical status is the key of the status row named Completado, if there is one; the
  rule of the completed view is that status when it exists and a date before today's
  midnight otherwise. An identifier is supplied when its key is present and not zero.
  \<open>bag\<close> reads a missing filter bag as the empty one.
\<close>

definition named_completed :: "store \<Rightarrow> status_row list" where
  "named_completed s = filter (\<lambda>r. name r = ''Completado'') (statuses s)"

definition canonical_status :: "store \<Rightarrow> nat option" where
  "canonical_status s = (case named_completed s of [] \<Rightarrow> None | r # rs \<Rightarrow> Some (status_pk r))"

definition supplied_id :: "nat option \<Rightarrow> nat option" where
  "supplied_id v = (case v of None \<Rightarrow> None | Some n \<Rightarrow> if n = 0 then None else Some n)"

definition completed_rule :: "env \<Rightarrow> store \<Rightarrow> appointment \<Rightarrow> bool" where
  "completed_rule e s a =
     (case canonical_status s of
        Some k \<Rightarrow> appointment_status a = Some k
      | None \<Rightarrow> appointment_date a < default_zone e ((today e - 1) * 86400000000))"

definition status_clause :: "env \<Rightarrow> store \<Rightarrow> filters \<Rightarrow> appointment \<Rightarrow> bool" where
  "status_clause e s f a =
     (case flt_appointment_status f of
        Some v \<Rightarrow> appointment_status a = Some v
      | None \<Rightarrow> completed_rule e s a)"

definition person_clause :: "filters \<Rightarrow> appointment \<Rightarrow> bool" where
  "person_clause f a =
     ((case supplied_id (flt_patient f) of None \<Rightarrow> True | Some p \<Rightarrow> patient a = p)
      \<and> (case supplied_id (flt_therapist f) of None \<Rightarrow> True | Some t \<Rightarrow> therapist a = t))"

definition window :: "env \<Rightarrow> filters \<Rightarrow> instant option \<times> instant option" where
  "window e f =
     spec_window e (supplied e (flt_date f)) (supplied e (flt_start_date f))
       (supplied e (flt_end_date f))"


text \<open>
  Sample data in a zone five hours behind the naive clock: 63840873600000000 is
  2024-01-15 00:00:00 read naively, 63840891600000000 the same wall time in the zone.
\<close>

definition lima :: "naive_datetime \<Rightarrow> instant" where
  "lima x = x + 18000000000"

definition env_lima :: env where
  "env_lima = \<lparr>now = 5000, today = 738900, zone = Some lima, default_zone = lima,
     fromisoformat = (\<lambda>str. if str = ''2024-01-15'' then Some 63840873600000000
                              else None)\<rparr>"

definition visit :: "nat \<Rightarrow> nat \<Rightarrow> instant \<Rightarrow> nat option \<Rightarrow> instant option \<Rightarrow> appointment" where
  "visit k p at st del = \<lparr>pk = k, patient = p, therapist = 3, appointment_date = at, hour = hm 9 0,
     appointment_status = st, deleted_at = del\<rparr>"





definition store_c7 :: store where
  "store_c7 = \<lparr>appointments =
       [visit 1 7 63840891600000000 (Some 2) None,
        visit 2 7 63840978000000000 (Some 2) None,
        visit 3 7 63840873600000000 (Some 2) None],
     tickets = [],
     statuses = [\<lparr>status_pk = 2, name = ''Completado'', status_deleted_at = None\<rparr>]\<rparr>"

definition store_c4_two :: store where
  "store_c4_two = \<lparr>appointments = [], tickets = [],
     statuses = [\<lparr>status_pk = 2, name = ''Completado'', status_deleted_at = None\<rparr>,
                 \<lparr>status_pk = 5, name = ''Completado'', status_deleted_at = None\<rparr>]\<rparr>"

section \<open>Verified properties\<close>

subsection \<open>Availability\<close>

lemma conflicting_eq:
  "conflicting_appointments e s d x y =
     filter (\<lambda>a. \<not> non_conflicting (time_of x) (time_of y) a) (on_date e s d)"
  unfolding conflicting_appointments_def exclude_def non_conflicting_def on_date_def
  by (auto intro: filter_cong)

lemma time_of_combine: "int h < us_per_day \<Longrightarrow> time_of (combine d h) = h"
proof -
  assume a: "int h < us_per_day"
  have "((d - 1) * us_per_day + int h) mod us_per_day = int h mod us_per_day"
    by simp
  also have "\<dots> = int h" using a by simp
  finally show ?thesis by (simp add: time_of_def combine_def)
qed

text \<open>
  C5. For a start time \<open>h\<close> of the day and a duration whose end is a representable
  datetime, \<^verbatim>\<open>check_availability\<close> answers with status 200. The conflicting
  appointments are exactly the appointments of the date that are not deleted and are not
  non-conflicting, where an appointment is non-conflicting when its hour is at or after
  the time of day of the end of the interval or at or before \<open>h\<close>; the duration of the
  existing appointment plays no part. \<^verbatim>\<open>is_available\<close> is true exactly when that
  list is empty, and the count reported is its length (0 when available). The witness
  asks for 10:00 to 11:00 on a day with appointments at 10:30 and at 11:00 (one conflict)
  and on a day with the appointment at 11:00 only (available).
\<close>

theorem check_availability_rule:
  assumes "int h < us_per_day"
    and "representable (combine d h + duration * 60000000)"
  shows "check_availability e s d h duration =
     (let end_time = time_of (combine d h + duration * 60000000);
          conflicts = filter (\<lambda>a. \<not> non_conflicting h end_time a) (on_date e s d)
      in Inr (Response (Availability (conflicts = []) (length conflicts)) 200))"
  using assms
  by (simp add: check_availability_def Let_def conflicting_eq time_of_combine)

theorem check_availability_rule_witness:
  "check_availability env0 store_c5 738900 (hm 10 0) 60 = Inr (Response (Availability False 1) 200)
   \<and> check_availability env0 (store_c5\<lparr>appointments := [appt 2 738900 (hm 11 0) None]\<rparr>)
        738900 (hm 10 0) 60
       = Inr (Response (Availability True 0) 200)"
  using check_availability_rule [of "hm 10 0" 738900 60 env0 store_c5]
    check_availability_rule [of "hm 10 0" 738900 60 env0
      "store_c5\<lparr>appointments := [appt 2 738900 (hm 11 0) None]\<rparr>"]
  by (simp add: us_per_day_def representable_def combine_def max_ordinal_def hm_def time_of_def
      non_conflicting_def on_date_def store_c5_def appt_def env0_def date_lookup_def Let_def)

subsection \<open>Listing and creation\<close>

text \<open>
  C1. \<^verbatim>\<open>list_all\<close> slices the query set and then counts the slice. With three
  active appointments, no filter, \<^verbatim>\<open>page = 1\<close> and \<^verbatim>\<open>page_size = 2\<close> it
  reports the count 2, while three appointments match (and the unpaginated call reports
  3): the count is the length of the page, not the number of matching appointments.
\<close>

theorem list_all_count_after_slice:
  "list_all env0 store_c1 None (Some first_two)
     = Inr (Response (Listing 2 [appt 1 738900 (hm 9 0) None, appt 2 738900 (hm 10 0) None]) 200)
   \<and> length (list_all_filtered env0 store_c1 None) = 3
   \<and> list_all env0 store_c1 None None = Inr (Response (Listing 3 (appointments store_c1)) 200)"
  by (simp add: list_all_def list_all_filtered_def active_def store_c1_def first_two_def
      paginate_def slice_def appt_def Let_def)

text \<open>
  C2. The body of \<^verbatim>\<open>create\<close> returns a response when no ticket is found, so no
  exception leaves the atomic block and the insertion is committed: with a receiver that
  issues no ticket, \<^verbatim>\<open>create\<close> answers 500 and the store keeps the new appointment
  with an empty ticket table.
\<close>

theorem create_commits_without_ticket:
  "create no_ticket data_c2 empty_store =
     (Inr (Response (Error ''Error al crear el ticket automatico'') 500),
      \<lparr>appointments = [\<lparr>pk = 1, patient = 7, therapist = 3, appointment_date = combine 738900 0,
          hour = hm 9 0, appointment_status = None, deleted_at = None\<rparr>],
       tickets = [], statuses = []\<rparr>)"
  by (simp add: create_def atomic_def create_body_def serializer_save_def no_ticket_def data_c2_def
      empty_store_def next_pk_def objects_get_def Let_def)

text \<open>
  When the receiver fails on a database error, the transaction is marked and the insertion
  of the appointment is rolled back, although the body returns a response.
\<close>

lemma create_rolls_back_on_database_error:
  "create ticket_refused data_c2 empty_store =
     (Inr (Response (ErrorExc ''Error al crear la cita'' IntegrityError) 500), empty_store)"
  by (simp add: create_def atomic_def create_body_def serializer_save_def ticket_refused_def
      data_c2_def empty_store_def Let_def)

lemma paginate_page:
  assumes "page p = Some pg" and "page_size p = Some sz" and "1 \<le> pg"
  shows "paginate p qs = Inr (take sz (drop ((pg - 1) * sz) qs))"
proof -
  from assms(3) obtain m where m: "pg = Suc m" by (cases pg) auto
  have st: "(int pg - 1) * int sz = int (m * sz)" by (simp add: m)
  have "slice qs (int (m * sz)) (int (m * sz) + int sz) = Inr (take sz (drop (m * sz) qs))"
    unfolding slice_def by (simp del: of_nat_mult of_nat_add)
  then show ?thesis using assms(1,2)
    unfolding paginate_def Let_def by (simp only: option.case st) (simp add: m)
qed

text \<open>
  What holds of the two listings for a page number of at least one: the completed view
  reports the number of matching appointments, taken before the slice, and a page of at
  most \<^verbatim>\<open>page_size\<close> results; \<^verbatim>\<open>list_all\<close> reports the length of the page.
\<close>

lemma completed_count_before_slice:
  assumes "completed_filtered e s fo = Inr qs"
    and "page p = Some pg" and "page_size p = Some sz" and "1 \<le> pg"
  shows "\<exists>r. get_completed_appointments e s fo (Some p) = Inr (Response (Listing (length qs) r) 200)
           \<and> length r \<le> sz"
  using assms(1,2,3) paginate_page [OF assms(2,3,4), of "order_by_desc qs"]
  by (simp add: get_completed_appointments_def Let_def)

lemma list_all_counts_the_page:
  assumes "page p = Some pg" and "page_size p = Some sz" and "1 \<le> pg"
  shows "\<exists>r. list_all e s fo (Some p) = Inr (Response (Listing (length r) r) 200)
           \<and> r = take sz (drop ((pg - 1) * sz) (list_all_filtered e s fo))"
  using assms(1,2) paginate_page [OF assms, of "list_all_filtered e s fo"]
  by (simp add: list_all_def Let_def)

subsection \<open>Unparsable dates\<close>

lemma parse_date_unparsable:
  "unparsable e (Some str) \<Longrightarrow> parse_date e str = Inl ValueError"
  by (simp add: unparsable_def parse_date_def)


lemma parse_date_Inl: "parse_date e str = Inl x \<Longrightarrow> x = ValueError"
  by (simp add: parse_date_def split: option.splits)


lemma date_window_bad:
  assumes "bad_date e f"
  shows "date_window e f qs = Inl ValueError"
proof (cases "truthy_str (flt_date f)")
  case True
  then obtain str where s: "flt_date f = Some str" by (cases "flt_date f") auto
  with True assms have "parse_date e str = Inl ValueError"
    by (simp add: bad_date_def parse_date_unparsable)
  with True s show ?thesis by (simp add: date_window_def)
next
  case False
  with assms have d: "unparsable e (flt_start_date f) \<or> unparsable e (flt_end_date f)"
    by (simp add: bad_date_def)
  show ?thesis
  proof (cases "unparsable e (flt_start_date f)")
    case True
    then obtain str where s: "flt_start_date f = Some str" "str \<noteq> []"
      by (cases "flt_start_date f") (auto simp: unparsable_def)
    with True have "parse_date e str = Inl ValueError" by (simp add: parse_date_unparsable)
    with False s show ?thesis by (simp add: date_window_def)
  next
    case nb: False
    with d have u: "unparsable e (flt_end_date f)" by simp
    then obtain str where s: "flt_end_date f = Some str" "str \<noteq> []"
      by (cases "flt_end_date f") (auto simp: unparsable_def)
    with u have p: "parse_date e str = Inl ValueError" by (simp add: parse_date_unparsable)
    with False s show ?thesis
      by (auto simp: date_window_def split: sum.splits dest: parse_date_Inl)
  qed
qed


lemma bad_date_truthy: "bad_date e f \<Longrightarrow> truthy_filters (Some f)"
  by (auto simp: bad_date_def unparsable_def no_filters_def split: if_splits option.splits)


lemma completed_status_id_canonical:
  assumes "length (named_completed s) \<le> 1"
  shows "completed_status_id s = Inr (canonical_status s)"
proof (cases "named_completed s")
  case Nil
  then show ?thesis
    by (simp add: completed_status_id_def objects_get_def canonical_status_def named_completed_def)
next
  case (Cons r rs)
  with assms have "rs = []" by simp
  with Cons show ?thesis
    by (simp add: completed_status_id_def objects_get_def canonical_status_def named_completed_def)
qed

lemma completed_status_id_multiple:
  assumes "\<not> length (named_completed s) \<le> 1"
  shows "completed_status_id s = Inl MultipleObjectsReturned"
proof -
  from assms obtain r r' rs where "named_completed s = r # r' # rs"
    by (cases "named_completed s"; cases "tl (named_completed s)") auto
  then show ?thesis
    by (simp add: completed_status_id_def objects_get_def named_completed_def)
qed

lemma bad_date_answer:
  assumes "bad_date e f"
  shows "get_completed_appointments e s (Some f) po =
     Inr (Response (ErrorExc ''Error al obtener citas completadas''
            (case completed_status_id s of Inl x \<Rightarrow> x | Inr c \<Rightarrow> ValueError)) 500)"
  using bad_date_truthy [OF assms] date_window_bad [OF assms]
  by (simp add: get_completed_appointments_def completed_filtered_def Let_def split: sum.splits)

text \<open>
  C4 (as amended). The date string that is parsed is \<^verbatim>\<open>date\<close> when it is not
  empty, and otherwise \<^verbatim>\<open>start_date\<close> and \<^verbatim>\<open>end_date\<close> when they are not
  empty. When such a string is unparsable, no exception leaves
  \<^verbatim>\<open>get_completed_appointments\<close>: the call returns a response of status 500.
  The response carries the \<^verbatim>\<open>ValueError\<close> when at most one status row is named
  Completado; when more than one row has that name, the status lookup, which runs first,
  has already failed, and the response carries its \<^verbatim>\<open>MultipleObjectsReturned\<close>.
\<close>

theorem unparsable_date_is_answered:
  assumes "bad_date e f"
  shows "get_completed_appointments e s (Some f) po =
     Inr (Response (ErrorExc ''Error al obtener citas completadas''
            (if length (named_completed s) \<le> 1 then ValueError else MultipleObjectsReturned)) 500)"
proof (cases "length (named_completed s) \<le> 1")
  case True
  with bad_date_answer [OF assms, of s po] completed_status_id_canonical [OF True]
  show ?thesis by simp
next
  case False
  with bad_date_answer [OF assms, of s po] completed_status_id_multiple [OF False]
  show ?thesis by simp
qed


text \<open>
  The claim as stated fails twice: an unparsable \<^verbatim>\<open>date\<close> is answered with a
  response of status 500 instead of a propagated exception, and an unparsable
  \<^verbatim>\<open>start_date\<close> beside a valid \<^verbatim>\<open>date\<close> is never parsed, so the call
  succeeds.
\<close>

theorem unparsable_date_counterexample:
  "get_completed_appointments env0 store_c4 (Some (no_filters\<lparr>flt_date := Some ''15/01/2024''\<rparr>)) None
     = Inr (Response (ErrorExc ''Error al obtener citas completadas'' ValueError) 500)
   \<and> get_completed_appointments env0 store_c4
        (Some (no_filters\<lparr>flt_date := Some ''2024-01-15'', flt_start_date := Some ''15/01/2024''\<rparr>)) None
     = Inr (Response (Listing 1 [appt 1 738900 (hm 9 0) (Some 2)]) 200)"
  by (simp add: get_completed_appointments_def completed_filtered_def completed_status_id_def
      objects_get_def store_c4_def no_filters_def date_window_def parse_date_def env0_def
      other_filters_def completed_or_past_def active_def appt_def next_midnight_def
      representable_def combine_def us_per_day_def max_ordinal_def make_aware_def date_of_def Let_def)


theorem unparsable_date_is_answered_witness:
  "bad_date env0 (no_filters\<lparr>flt_end_date := Some ''15/01/2024''\<rparr>)
   \<and> length (named_completed store_c4) \<le> 1
   \<and> get_completed_appointments env0 store_c4 (Some (no_filters\<lparr>flt_end_date := Some ''15/01/2024''\<rparr>)) None
     = Inr (Response (ErrorExc ''Error al obtener citas completadas'' ValueError) 500)
   \<and> \<not> length (named_completed store_c4_two) \<le> 1
   \<and> get_completed_appointments env0 store_c4_two
        (Some (no_filters\<lparr>flt_end_date := Some ''15/01/2024''\<rparr>)) None
     = Inr (Response (ErrorExc ''Error al obtener citas completadas'' MultipleObjectsReturned) 500)"
proof -
  have b: "bad_date env0 (no_filters\<lparr>flt_end_date := Some ''15/01/2024''\<rparr>)"
    by (simp add: bad_date_def unparsable_def no_filters_def env0_def)
  have c: "length (named_completed store_c4) \<le> 1"
    by (simp add: named_completed_def store_c4_def)
  have d: "\<not> length (named_completed store_c4_two) \<le> 1"
    by (simp add: named_completed_def store_c4_two_def)
  from unparsable_date_is_answered [OF b, of store_c4 None] c
  have 1: "get_completed_appointments env0 store_c4
        (Some (no_filters\<lparr>flt_end_date := Some ''15/01/2024''\<rparr>)) None
     = Inr (Response (ErrorExc ''Error al obtener citas completadas'' ValueError) 500)"
    by simp
  from unparsable_date_is_answered [OF b, of store_c4_two None] d
  have 2: "get_completed_appointments env0 store_c4_two
        (Some (no_filters\<lparr>flt_end_date := Some ''15/01/2024''\<rparr>)) None
     = Inr (Response (ErrorExc ''Error al obtener citas completadas'' MultipleObjectsReturned) 500)"
    by simp
  from b c d 1 2 show ?thesis by simp
qed

subsection \<open>The completed view\<close>

lemma midnight_code: "midnight e d = make_aware e (combine d 0)"
  by (simp add: midnight_def make_aware_def combine_def us_per_day_def cong: option.case_cong)

lemma supplied_code:
  "supplied e v =
     (case v of
        None \<Rightarrow> None
      | Some str \<Rightarrow> if str = [] then None else map_option date_of (fromisoformat e str))"
  by (simp add: supplied_def date_of_def us_per_day_def split: option.splits)

lemma next_day_exists_code:
  "next_day_exists v = (case v of None \<Rightarrow> True | Some d \<Rightarrow> representable (combine (d + 1) 0))"
  by (simp add: next_day_exists_def representable_def combine_def us_per_day_def max_ordinal_def
      split: option.splits)

lemma parse_date_today: "parse_date (e\<lparr>today := t\<rparr>) = parse_date e"
  by (rule ext) (simp add: parse_date_def)

lemma make_aware_today: "make_aware (e\<lparr>today := t\<rparr>) = make_aware e"
  by (rule ext) (simp add: make_aware_def cong: option.case_cong)

lemma date_window_today [simp]: "date_window (e\<lparr>today := t\<rparr>) f qs = date_window e f qs"
  unfolding date_window_def parse_date_today make_aware_today ..

lemma completed_filtered_status:
  assumes "objects_get (\<lambda>r. name r = ''Completado'') (statuses s) = Inr row"
    and "status_pk row \<noteq> 0" and "status_unset fo"
  shows "completed_filtered e s fo = completed_filtered (e\<lparr>today := t\<rparr>) s (with_status (status_pk row) fo)"
proof -
  have c: "completed_status_id s = Inr (Some (status_pk row))"
    using assms(1) by (simp add: completed_status_id_def)
  have nt: "date_window e no_filters qs = Inr qs" for qs
    by (simp add: date_window_def no_filters_def)
  show ?thesis
  proof (cases fo)
    case None
    then show ?thesis using assms(2)
      by (simp add: completed_filtered_def c with_status_def other_filters_def
          completed_or_past_def no_filters_def date_window_def)
  next
    case (Some f)
    with assms(3) have u: "flt_appointment_status f = None" by (simp add: status_unset_def)
    show ?thesis
    proof (cases "f = no_filters")
      case True
      with Some show ?thesis using assms(2)
        by (simp add: completed_filtered_def c with_status_def other_filters_def
            completed_or_past_def no_filters_def date_window_def)
    next
      case False
      have w: "date_window e (f\<lparr>flt_appointment_status := Some (status_pk row)\<rparr>) qs = date_window e f qs" for qs
        by (simp add: date_window_def cong: sum.case_cong option.case_cong)
      have n: "f\<lparr>flt_appointment_status := Some (status_pk row)\<rparr> \<noteq> no_filters"
        by (auto simp: no_filters_def dest: arg_cong [where f = flt_appointment_status])
      from Some False u n show ?thesis using assms(2)
        by (simp add: completed_filtered_def c with_status_def other_filters_def
            completed_or_past_def w Let_def cong: if_cong)
    qed
  qed
qed

lemma set_paginate: "paginate p qs = Inr r \<Longrightarrow> set r \<subseteq> set qs"
  by (auto simp: paginate_def slice_def Let_def split: if_splits dest: in_set_takeD in_set_dropD)

lemma set_listed_completed:
  "completed_filtered e s fo = Inr qs \<Longrightarrow> set (listed (get_completed_appointments e s fo po)) \<subseteq> set qs"
  by (auto simp: get_completed_appointments_def listed_def order_by_desc_def Let_def
      split: option.splits sum.splits if_splits dest!: set_paginate)

lemma set_date_window: "date_window e f qs = Inr r \<Longrightarrow> set r \<subseteq> set qs"
  by (auto simp: date_window_def split: if_splits sum.splits)

lemma set_other_filters_sub: "a \<in> set (other_filters e c f qs) \<Longrightarrow> a \<in> set qs"
  by (auto simp: other_filters_def completed_or_past_def Let_def split: if_splits option.splits)

lemma set_other_filters_status:
  "a \<in> set (other_filters e (Some sid) f qs) \<Longrightarrow> sid \<noteq> 0 \<Longrightarrow> flt_appointment_status f = None
     \<Longrightarrow> appointment_status a = Some sid"
  by (auto simp: other_filters_def completed_or_past_def Let_def split: if_splits)

text \<open>
  With one status row named Completado, a call that supplies no status answers as the call
  that supplies that status, whatever the current date is.
\<close>

lemma completed_as_explicit_status:
  assumes "objects_get (\<lambda>r. name r = ''Completado'') (statuses s) = Inr row"
    and "status_pk row \<noteq> 0" and "status_unset fo"
  shows "get_completed_appointments e s fo po
           = get_completed_appointments (e\<lparr>today := t\<rparr>) s (with_status (status_pk row) fo) po
         \<and> (\<forall>a \<in> set (listed (get_completed_appointments e s fo po)).
               appointment_status a = Some (status_pk row) \<and> deleted_at a = None)"
proof
  show "get_completed_appointments e s fo po
           = get_completed_appointments (e\<lparr>today := t\<rparr>) s (with_status (status_pk row) fo) po"
    using completed_filtered_status [OF assms, of e t]
    by (simp add: get_completed_appointments_def)
next
  have c: "completed_status_id s = Inr (Some (status_pk row))"
    using assms(1) by (simp add: completed_status_id_def)
  show "\<forall>a \<in> set (listed (get_completed_appointments e s fo po)).
          appointment_status a = Some (status_pk row) \<and> deleted_at a = None"
  proof
    fix a assume a: "a \<in> set (listed (get_completed_appointments e s fo po))"
    show "appointment_status a = Some (status_pk row) \<and> deleted_at a = None"
    proof (cases "completed_filtered e s fo")
      case (Inl x)
      with a show ?thesis by (simp add: get_completed_appointments_def listed_def)
    next
      case (Inr qs)
      with a set_listed_completed have m: "a \<in> set qs" by blast
      have "set qs \<subseteq> {a \<in> set (active s). appointment_status a = Some (status_pk row)}"
        using Inr assms(2,3) c
        by (auto simp: completed_filtered_def status_unset_def completed_or_past_def Let_def
            split: option.splits if_splits
            dest!: set_date_window dest: set_other_filters_status set_other_filters_sub)
      with m show ?thesis by (auto simp: active_def)
    qed
  qed
qed

text \<open>Without a row of that name, the view falls back to the dates before today.\<close>

lemma completed_falls_back:
  assumes "objects_get (\<lambda>r. name r = ''Completado'') (statuses s) = Inl DoesNotExist"
  shows "completed_filtered e s None
           = Inr (filter (\<lambda>a. appointment_date a < date_lookup e (today e)) (active s))"
  using assms by (simp add: completed_filtered_def completed_status_id_def completed_or_past_def)

lemma next_midnight_ok: "representable (combine (d + 1) 0) \<Longrightarrow> next_midnight d = Inr (combine (d + 1) 0)"
  by (simp add: next_midnight_def)

lemma in_window_fun:
  "in_window w = (\<lambda>a. (case fst w of None \<Rightarrow> True | Some lo \<Rightarrow> lo \<le> appointment_date a)
      \<and> (case snd w of None \<Rightarrow> True | Some hi \<Rightarrow> appointment_date a < hi))"
  by (rule ext) (simp add: in_window_def)

lemma date_window_spec:
  assumes "\<not> bad_date e f" and "next_day_exists (closing_day e f)"
  shows "date_window e f qs =
     Inr (filter (in_window (spec_window e (supplied e (flt_date f)) (supplied e (flt_start_date f))
                     (supplied e (flt_end_date f)))) qs)"
proof (cases "truthy_str (flt_date f)")
  case True
  then obtain str where s: "flt_date f = Some str" "str \<noteq> []" by (cases "flt_date f") auto
  with assms(1) True obtain x where x: "fromisoformat e str = Some x"
    by (auto simp: bad_date_def unparsable_def)
  from s x have d: "supplied e (flt_date f) = Some (date_of x)" by (simp add: supplied_code)
  from assms(2) True d have "representable (combine (date_of x + 1) 0)"
    by (simp add: closing_day_def next_day_exists_code)
  then have n: "next_midnight (date_of x) = Inr (combine (date_of x + 1) 0)" by (rule next_midnight_ok)
  show ?thesis
    using True s x n d by (simp add: date_window_def parse_date_def in_window_fun midnight_code)
next
  case False
  then have d: "supplied e (flt_date f) = None"
    by (cases "flt_date f") (auto simp: supplied_code)
  from assms(1) False have nb: "\<not> unparsable e (flt_start_date f)" "\<not> unparsable e (flt_end_date f)"
    by (simp_all add: bad_date_def)
  have st: "(\<not> truthy_str (flt_start_date f) \<and> supplied e (flt_start_date f) = None)
      \<or> (\<exists>str x. flt_start_date f = Some str \<and> str \<noteq> [] \<and> fromisoformat e str = Some x
            \<and> supplied e (flt_start_date f) = Some (date_of x))"
    using nb(1) by (cases "flt_start_date f") (auto simp: supplied_code unparsable_def)
  have en: "(\<not> truthy_str (flt_end_date f) \<and> supplied e (flt_end_date f) = None)
      \<or> (\<exists>str x. flt_end_date f = Some str \<and> str \<noteq> [] \<and> fromisoformat e str = Some x
            \<and> supplied e (flt_end_date f) = Some (date_of x)
            \<and> next_midnight (date_of x) = Inr (combine (date_of x + 1) 0))"
  proof (cases "truthy_str (flt_end_date f)")
    case nt: False
    then show ?thesis by (cases "flt_end_date f") (auto simp: supplied_code)
  next
    case True
    then obtain str where s: "flt_end_date f = Some str" "str \<noteq> []"
      by (cases "flt_end_date f") auto
    with nb(2) obtain x where x: "fromisoformat e str = Some x"
      by (auto simp: unparsable_def)
    from s x have sd: "supplied e (flt_end_date f) = Some (date_of x)" by (simp add: supplied_code)
    with assms(2) False have "representable (combine (date_of x + 1) 0)"
      by (simp add: closing_day_def next_day_exists_code)
    then have "next_midnight (date_of x) = Inr (combine (date_of x + 1) 0)" by (rule next_midnight_ok)
    with s x sd show ?thesis by simp
  qed
  from st en show ?thesis
    using False d
    by (auto simp: date_window_def parse_date_def in_window_fun midnight_code)
qed

text \<open>
  The date keys restrict the query set left by the other filters to the window.
\<close>

lemma completed_window:
  assumes "completed_status_id s = Inr cid"
    and "\<not> bad_date e f" and "next_day_exists (closing_day e f)"
  shows "completed_filtered e s (Some f) =
     Inr (filter (in_window (spec_window e (supplied e (flt_date f)) (supplied e (flt_start_date f))
                     (supplied e (flt_end_date f))))
            (other_filters e cid f (active s)))"
proof (cases "f = no_filters")
  case True
  have "other_filters e cid no_filters (active s) = completed_or_past e cid (active s)"
    by (simp add: other_filters_def no_filters_def)
  moreover have "supplied e (flt_date no_filters) = None" "supplied e (flt_start_date no_filters) = None"
    "supplied e (flt_end_date no_filters) = None"
    by (simp_all add: supplied_code no_filters_def)
  ultimately show ?thesis using True assms(1)
    by (simp add: completed_filtered_def in_window_fun)
next
  case False
  then show ?thesis using assms(1) date_window_spec [OF assms(2,3)]
    by (simp add: completed_filtered_def)
qed

lemma completed_or_past_rule:
  assumes "canonical_status s \<noteq> Some 0"
  shows "completed_or_past e (canonical_status s) qs = filter (completed_rule e s) qs"
proof (cases "canonical_status s")
  case None
  then show ?thesis
    by (simp add: completed_or_past_def completed_rule_def date_lookup_def combine_def
        us_per_day_def cong: filter_cong)
next
  case (Some k)
  with assms have "k \<noteq> 0" by simp
  with Some show ?thesis
    by (simp add: completed_or_past_def completed_rule_def cong: filter_cong)
qed

lemma other_filters_explicit:
  assumes "canonical_status s \<noteq> Some 0"
  shows "other_filters e (canonical_status s) f (active s)
           = filter (\<lambda>a. deleted_at a = None \<and> status_clause e s f a \<and> person_clause f a)
               (appointments s)"
proof -
  have q1: "(case flt_appointment_status f of
               Some v \<Rightarrow> filter (\<lambda>a. appointment_status a = Some v) (active s)
             | None \<Rightarrow> completed_or_past e (canonical_status s) (active s))
            = filter (\<lambda>a. deleted_at a = None \<and> status_clause e s f a) (appointments s)"
    by (cases "flt_appointment_status f")
      (auto simp: completed_or_past_rule [OF assms] status_clause_def active_def intro: filter_cong)
  have p: "(if truthy_id v then filter (\<lambda>a. Some (g a) = v) qs else qs)
         = filter (\<lambda>a. case supplied_id v of None \<Rightarrow> True | Some p \<Rightarrow> g a = p) qs"
    for v and g :: "appointment \<Rightarrow> nat" and qs
    by (cases v) (auto simp: supplied_id_def intro: filter_cong)
  show ?thesis
    unfolding other_filters_def Let_def q1 p person_clause_def
    by (auto intro: filter_cong)
qed

lemma completed_filtered_explicit:
  assumes "length (named_completed s) \<le> 1" and "canonical_status s \<noteq> Some 0"
    and "\<not> bad_date e f" and "next_day_exists (closing_day e f)"
  shows "completed_filtered e s (Some f) =
     Inr (filter (in_window (window e f))
            (filter (\<lambda>a. deleted_at a = None \<and> status_clause e s f a \<and> person_clause f a)
               (appointments s)))"
  using completed_window [OF completed_status_id_canonical [OF assms(1)] assms(3,4)]
  by (simp add: other_filters_explicit [OF assms(2)] window_def)







text \<open>
  C7. Let at most one status row be named Completado, with a positive key, and let the
  date strings that are parsed be well formed, the closing day not being 9999-12-31. Then
  \<^verbatim>\<open>get_completed_appointments\<close> lists exactly the appointments left by the
  status, patient and therapist filters that lie in the window of the specification: for
  \<^verbatim>\<open>date = D\<close> from \<open>D\<close> 00:00:00 (included) to \<open>D + 1\<close> 00:00:00 (excluded)
  in the configured zone, whatever \<^verbatim>\<open>start_date\<close> and \<^verbatim>\<open>end_date\<close> hold;
  otherwise from \<^verbatim>\<open>start_date\<close> 00:00:00 and up to the midnight after
  \<^verbatim>\<open>end_date\<close>, each bound absent when its key is. In the witness the zone is
  five hours behind the naive clock: the appointment at \<open>D\<close> 00:00:00 of the zone is
  listed, the one at \<open>D + 1\<close> 00:00:00 of the zone and the one at \<open>D\<close> 00:00:00 read
  without the zone are not, and the unparsable \<^verbatim>\<open>start_date\<close> is ignored.
\<close>

theorem completed_in_window:
  assumes "length (named_completed s) \<le> 1" and "canonical_status s \<noteq> Some 0"
    and "\<not> bad_date e f" and "next_day_exists (closing_day e f)"
  shows
    "(let r = filter (in_window (spec_window e (supplied e (flt_date f))
                        (supplied e (flt_start_date f)) (supplied e (flt_end_date f))))
                (filter (\<lambda>a. deleted_at a = None \<and> status_clause e s f a \<and> person_clause f a)
                   (appointments s))
      in get_completed_appointments e s (Some f) None = Inr (Response (Listing (length r) r) 200)
         \<and> (\<forall>p pg sz. page p = Some pg \<and> page_size p = Some sz \<and> 1 \<le> pg \<longrightarrow>
               get_completed_appointments e s (Some f) (Some p) =
                 Inr (Response (Listing (length r)
                        (take sz (drop ((pg - 1) * sz) (order_by_desc r)))) 200)))"
proof -
  let ?r = "filter (in_window (spec_window e (supplied e (flt_date f))
                        (supplied e (flt_start_date f)) (supplied e (flt_end_date f))))
                (filter (\<lambda>a. deleted_at a = None \<and> status_clause e s f a \<and> person_clause f a)
                   (appointments s))"
  have q: "completed_filtered e s (Some f) = Inr ?r"
    using completed_filtered_explicit [OF assms] by (simp add: window_def)
  have 1: "get_completed_appointments e s (Some f) None = Inr (Response (Listing (length ?r) ?r) 200)"
    using q by (simp add: get_completed_appointments_def Let_def)
  have 2: "get_completed_appointments e s (Some f) (Some p) =
      Inr (Response (Listing (length ?r) (take sz (drop ((pg - 1) * sz) (order_by_desc ?r)))) 200)"
    if "page p = Some pg" "page_size p = Some sz" "1 \<le> pg" for p pg sz
    using q that(1,2) paginate_page [OF that, of "order_by_desc ?r"]
    by (simp add: get_completed_appointments_def Let_def)
  from 1 2 show ?thesis unfolding Let_def by blast
qed

lemma named_c7: "named_completed store_c7
    = [\<lparr>status_pk = 2, name = ''Completado'', status_deleted_at = None\<rparr>]"
  by (simp add: named_completed_def store_c7_def)

lemma supplied_c7:
  "supplied env_lima (flt_date filters_c7) = Some 738900"
  "supplied env_lima (flt_start_date filters_c7) = None"
  "supplied env_lima (flt_end_date filters_c7) = None"
  by (simp_all add: supplied_def filters_c7_def no_filters_def env_lima_def)

theorem completed_in_window_witness:
  "length (named_completed store_c7) \<le> 1 \<and> canonical_status store_c7 \<noteq> Some 0
   \<and> \<not> bad_date env_lima filters_c7 \<and> next_day_exists (closing_day env_lima filters_c7)
   \<and> spec_window env_lima (supplied env_lima (flt_date filters_c7))
        (supplied env_lima (flt_start_date filters_c7)) (supplied env_lima (flt_end_date filters_c7))
       = (Some 63840891600000000, Some 63840978000000000)
   \<and> get_completed_appointments env_lima store_c7 (Some filters_c7) None
       = Inr (Response (Listing 1 [visit 1 7 63840891600000000 (Some 2) None]) 200)"
proof -
  have h1: "length (named_completed store_c7) \<le> 1" by (simp add: named_c7)
  have h2: "canonical_status store_c7 \<noteq> Some 0" by (simp add: canonical_status_def named_c7)
  have h3: "\<not> bad_date env_lima filters_c7"
    by (simp add: bad_date_def unparsable_def filters_c7_def no_filters_def env_lima_def)
  have h4: "next_day_exists (closing_day env_lima filters_c7)"
    unfolding closing_day_def
    by (simp add: supplied_c7 next_day_exists_def)
  have w: "spec_window env_lima (supplied env_lima (flt_date filters_c7))
        (supplied env_lima (flt_start_date filters_c7)) (supplied env_lima (flt_end_date filters_c7))
       = (Some 63840891600000000, Some 63840978000000000)"
    by (simp only: supplied_c7 spec_window.simps) (simp add: midnight_def env_lima_def lima_def)
  have sc: "status_clause env_lima store_c7 filters_c7 a = (appointment_status a = Some 2)" for a
    by (simp add: status_clause_def completed_rule_def canonical_status_def named_c7
        filters_c7_def no_filters_def)
  have pc: "person_clause filters_c7 a" for a
    by (simp add: person_clause_def supplied_id_def filters_c7_def no_filters_def)
  have r: "filter (in_window (Some 63840891600000000, Some 63840978000000000))
             (filter (\<lambda>a. deleted_at a = None \<and> status_clause env_lima store_c7 filters_c7 a
                        \<and> person_clause filters_c7 a) (appointments store_c7))
           = [visit 1 7 63840891600000000 (Some 2) None]"
    unfolding sc by (simp add: pc in_window_def store_c7_def visit_def)
  from completed_in_window [OF h1 h2 h3 h4]
  have "get_completed_appointments env_lima store_c7 (Some filters_c7) None
       = Inr (Response (Listing 1 [visit 1 7 63840891600000000 (Some 2) None]) 200)"
    unfolding Let_def w r by simp
  with h1 h2 h3 h4 w show ?thesis by simp
qed

subsection \<open>Soft delete\<close>

lemma objects_get_Inr: "objects_get P xs = Inr a \<Longrightarrow> filter P xs = [a]"
  by (auto simp: objects_get_def split: list.splits)

lemma objects_get_InrD: "objects_get P xs = Inr a \<Longrightarrow> a \<in> set xs \<and> P a"
proof -
  assume "objects_get P xs = Inr a"
  then have "filter P xs = [a]" by (rule objects_get_Inr)
  then have "a \<in> set (filter P xs)" by simp
  then show ?thesis by simp
qed

lemma filter_key_distinct:
  "distinct (map f xs) \<Longrightarrow> length (filter (\<lambda>x. f x = v) xs) \<le> 1"
proof (induction xs)
  case Nil
  then show ?case by simp
next
  case (Cons x xs)
  show ?case
  proof (cases "f x = v")
    case True
    with Cons.prems have "filter (\<lambda>y. f y = v) xs = []"
      by (auto simp: filter_empty_conv image_iff)
    with True show ?thesis by simp
  next
    case False
    with Cons show ?thesis by simp
  qed
qed

lemma objects_get_key:
  assumes "distinct (map f xs)"
  shows "objects_get (\<lambda>x. f x = v) xs = Inl DoesNotExist \<or> (\<exists>t. objects_get (\<lambda>x. f x = v) xs = Inr t)"
proof -
  from filter_key_distinct [OF assms, of v]
  show ?thesis
    by (cases "filter (\<lambda>x. f x = v) xs" rule: list.exhaust; cases "tl (filter (\<lambda>x. f x = v) xs)")
      (auto simp: objects_get_def split: list.splits)
qed

lemma set_listed_list_all: "set (listed (list_all e s fo po)) \<subseteq> set (active s)"
proof -
  have f: "set (list_all_filtered e s fo) \<subseteq> set (active s)"
    by (auto simp: list_all_filtered_def filter_opt_def Let_def split: option.splits if_splits)
  show ?thesis
    using f
    by (auto simp: list_all_def listed_def Let_def
        split: option.splits sum.splits if_splits dest!: set_paginate)
qed

lemma set_completed_filtered: "completed_filtered e s fo = Inr qs \<Longrightarrow> set qs \<subseteq> set (active s)"
  by (auto simp: completed_filtered_def completed_or_past_def Let_def
      split: option.splits if_splits sum.splits dest!: set_date_window dest: set_other_filters_sub)

lemma set_listed_completed_active:
  "set (listed (get_completed_appointments e s fo po)) \<subseteq> set (active s)"
proof (cases "completed_filtered e s fo")
  case (Inl x)
  then show ?thesis by (simp add: get_completed_appointments_def listed_def)
next
  case (Inr qs)
  with set_listed_completed [OF Inr, of po] set_completed_filtered [OF Inr] show ?thesis by blast
qed

lemma set_filter_opt: "set (filter_opt v P qs) \<subseteq> set qs"
  by (auto simp: filter_opt_def split: option.splits)

lemma set_listed_date_range: "set (listed (get_by_date_range e s d1 d2 fo)) \<subseteq> set (active s)"
proof -
  let ?q = "filter (\<lambda>a. date_lookup e d1 \<le> appointment_date a
                \<and> appointment_date a \<le> date_lookup e d2 \<and> deleted_at a = None) (appointments s)"
  have "set ?q \<subseteq> set (active s)" by (auto simp: active_def)
  with set_filter_opt show ?thesis
    unfolding get_by_date_range_def listed_def Let_def
    by (auto split: option.splits if_splits dest!: set_filter_opt [THEN subsetD])
qed

lemma set_listed_pending: "set (listed (get_pending_appointments e s fo)) \<subseteq> set (active s)"
  unfolding get_pending_appointments_def listed_def Let_def pending_or_upcoming_def
  by (auto split: option.splits if_splits sum.splits dest!: set_filter_opt [THEN subsetD])

text \<open>
  C8. For an appointment that exists and is not deleted (the lookup by key succeeds),
  with tickets one-to-one to appointments, \<^verbatim>\<open>delete\<close> answers with status 200
  whether or not a ticket exists; no appointment row and no ticket row is removed; the
  appointment carries the current time as deletion timestamp, and so does every ticket of
  the appointment; afterwards \<^verbatim>\<open>get_by_id\<close> answers 404 and none of
  \<^verbatim>\<open>list_all\<close>, \<^verbatim>\<open>get_completed_appointments\<close>,
  \<^verbatim>\<open>get_pending_appointments\<close> and \<^verbatim>\<open>get_by_date_range\<close> lists the
  appointment, whatever the filters and the pagination.
\<close>

theorem delete_is_soft:
  assumes "objects_get (\<lambda>a. pk a = k \<and> deleted_at a = None) (appointments s) = Inr a"
    and "distinct (map ticket_appointment (tickets s))"
  shows "fst (delete e s k) = Inr (Response (Message ''Cita eliminada exitosamente'') 200)
    \<and> map pk (appointments (snd (delete e s k))) = map pk (appointments s)
    \<and> a\<lparr>deleted_at := Some (now e)\<rparr> \<in> set (appointments (snd (delete e s k)))
    \<and> length (tickets (snd (delete e s k))) = length (tickets s)
    \<and> (\<forall>t \<in> set (tickets (snd (delete e s k))).
          ticket_appointment t = k \<longrightarrow> ticket_deleted_at t = Some (now e))
    \<and> get_by_id (snd (delete e s k)) k = Inr (Response (Error ''Cita no encontrada'') 404)
    \<and> (\<forall>b \<in> set (listed (list_all e' (snd (delete e s k)) fo po)). pk b \<noteq> k)
    \<and> (\<forall>b \<in> set (listed (get_completed_appointments e' (snd (delete e s k)) fo po)). pk b \<noteq> k)
    \<and> (\<forall>b \<in> set (listed (get_pending_appointments e' (snd (delete e s k)) fo)). pk b \<noteq> k)
    \<and> (\<forall>b \<in> set (listed (get_by_date_range e' (snd (delete e s k)) d1 d2 fo)). pk b \<noteq> k)"
proof -
  let ?s' = "snd (delete e s k)"
  from objects_get_InrD [OF assms(1)] have a: "a \<in> set (appointments s)" "pk a = k" by auto
  let ?Pt = "\<lambda>t. ticket_appointment t = k"
  have R: "fst (delete e s k) = Inr (Response (Message ''Cita eliminada exitosamente'') 200)"
    and A: "appointments ?s' = appointment_soft_delete e a (appointments s)"
    and T: "tickets ?s' = (case objects_get ?Pt (tickets s) of
                              Inr t \<Rightarrow> ticket_soft_delete e t (tickets s) | Inl x \<Rightarrow> tickets s)"
    using objects_get_key [OF assms(2), of k] assms(1) a(2)
    by (auto simp: delete_def Let_def)
  have 2: "map pk (appointments ?s') = map pk (appointments s)"
    unfolding A appointment_soft_delete_def by (induction "appointments s") (auto simp: a(2))
  have 3: "a\<lparr>deleted_at := Some (now e)\<rparr> \<in> set (appointments ?s')"
    unfolding A appointment_soft_delete_def using a(1) by force
  have D: "deleted_at b \<noteq> None" if "b \<in> set (appointments ?s')" "pk b = k" for b
    using that a(2) unfolding A appointment_soft_delete_def by (auto split: if_splits)
  have 4: "length (tickets ?s') = length (tickets s)"
    by (simp add: T ticket_soft_delete_def split: sum.splits)
  have 5: "ticket_deleted_at r = Some (now e)" if r: "r \<in> set (tickets ?s')" "ticket_appointment r = k" for r
  proof (cases "objects_get ?Pt (tickets s)")
    case (Inl x)
    with objects_get_key [OF assms(2), of k] have "filter ?Pt (tickets s) = []"
      by (auto simp: objects_get_def split: list.splits)
    with r Inl show ?thesis by (auto simp: T filter_empty_conv)
  next
    case (Inr t)
    from objects_get_InrD [OF Inr] have t: "t \<in> set (tickets s)" "ticket_appointment t = k" by auto
    from r(1) Inr have "r = t\<lparr>ticket_deleted_at := Some (now e)\<rparr>
        \<or> (r \<in> set (tickets s) \<and> ticket_pk r \<noteq> ticket_pk t)"
      by (auto simp: T ticket_soft_delete_def split: if_splits)
    then show ?thesis
    proof
      assume "r = t\<lparr>ticket_deleted_at := Some (now e)\<rparr>"
      then show ?thesis by simp
    next
      assume o: "r \<in> set (tickets s) \<and> ticket_pk r \<noteq> ticket_pk t"
      from assms(2) have "inj_on ticket_appointment (set (tickets s))" by (simp add: distinct_map)
      with o t r(2) have "r = t" by (auto dest: inj_onD)
      with o show ?thesis by simp
    qed
  qed
  have 6: "get_by_id ?s' k = Inr (Response (Error ''Cita no encontrada'') 404)"
  proof -
    have "filter (\<lambda>a. pk a = k \<and> deleted_at a = None) (appointments ?s') = []"
      using D by (auto simp: filter_empty_conv)
    then show ?thesis by (simp add: get_by_id_def objects_get_def)
  qed
  have N: "pk b \<noteq> k" if "b \<in> set (active ?s')" for b
  proof
    assume "pk b = k"
    moreover from that have "b \<in> set (appointments ?s')" "deleted_at b = None"
      by (simp_all add: active_def)
    ultimately show False using D [of b] by simp
  qed
  have 7: "\<forall>b \<in> set (listed (list_all e' ?s' fo po)). pk b \<noteq> k"
    using set_listed_list_all [of e' ?s' fo po] N by blast
  have 8: "\<forall>b \<in> set (listed (get_completed_appointments e' ?s' fo po)). pk b \<noteq> k"
    using set_listed_completed_active [of e' ?s' fo po] N by blast
  have 9: "\<forall>b \<in> set (listed (get_pending_appointments e' ?s' fo)). pk b \<noteq> k"
    using set_listed_pending [of e' ?s' fo] N by blast
  have 10: "\<forall>b \<in> set (listed (get_by_date_range e' ?s' d1 d2 fo)). pk b \<noteq> k"
    using set_listed_date_range [of e' ?s' d1 d2 fo] N by blast
  from R 2 3 4 5 6 7 8 9 10 show ?thesis by blast
qed

theorem delete_is_soft_witness:
  "objects_get (\<lambda>a. pk a = 1 \<and> deleted_at a = None) (appointments store_c8) = Inr (appt 1 738900 (hm 9 0) None)
   \<and> distinct (map ticket_appointment (tickets store_c8))
   \<and> delete env0 store_c8 1 =
        (Inr (Response (Message ''Cita eliminada exitosamente'') 200),
         \<lparr>appointments = [(appt 1 738900 (hm 9 0) None)\<lparr>deleted_at := Some 5000\<rparr>,
             appt 2 738900 (hm 10 0) None],
          tickets = [\<lparr>ticket_pk = 1, ticket_appointment = 1, ticket_number = 100,
             ticket_deleted_at = Some 5000\<rparr>],
          statuses = []\<rparr>)
   \<and> fst (delete env0 store_c8 2) = Inr (Response (Message ''Cita eliminada exitosamente'') 200)
   \<and> get_by_id (snd (delete env0 store_c8 1)) 1 = Inr (Response (Error ''Cita no encontrada'') 404)"
proof -
  have h1: "objects_get (\<lambda>a. pk a = 1 \<and> deleted_at a = None) (appointments store_c8)
      = Inr (appt 1 738900 (hm 9 0) None)"
    by (simp add: objects_get_def store_c8_def appt_def)
  have h2: "distinct (map ticket_appointment (tickets store_c8))"
    by (simp add: store_c8_def)
  have v: "delete env0 store_c8 1 =
        (Inr (Response (Message ''Cita eliminada exitosamente'') 200),
         \<lparr>appointments = [(appt 1 738900 (hm 9 0) None)\<lparr>deleted_at := Some 5000\<rparr>,
             appt 2 738900 (hm 10 0) None],
          tickets = [\<lparr>ticket_pk = 1, ticket_appointment = 1, ticket_number = 100,
             ticket_deleted_at = Some 5000\<rparr>],
          statuses = []\<rparr>)"
    by (simp add: delete_def objects_get_def store_c8_def appt_def appointment_soft_delete_def
        ticket_soft_delete_def env0_def Let_def)
  have v2: "fst (delete env0 store_c8 2) = Inr (Response (Message ''Cita eliminada exitosamente'') 200)"
    by (simp add: delete_def objects_get_def store_c8_def appt_def appointment_soft_delete_def
        ticket_soft_delete_def env0_def Let_def)
  from delete_is_soft [OF h1 h2, of env0]
  have "get_by_id (snd (delete env0 store_c8 1)) 1 = Inr (Response (Error ''Cita no encontrada'') 404)"
    by blast
  with h1 h2 v v2 show ?thesis by simp
qed

subsection \<open>Deleting a status\<close>




text \<open>
  When the count itself fails on a missing column, the code goes on and deletes without
  the check.
\<close>

lemma destroy_without_count:
  assumes "get_object s k = Inr inst"
    and "contains ''Unknown column'' msg" and "contains ''appointment_status_id'' msg"
  shows "destroy e (Some msg) s k = mark_deleted e inst s"
  using assms by (simp add: destroy_def appointment_set_count_def)

subsection \<open>Roles and permissions\<close>

lemma le_fold_max: "k \<in> set ks \<Longrightarrow> k \<le> fold max ks (a::nat)"
proof (induction ks arbitrary: a)
  case Nil
  then show ?case by simp
next
  case (Cons x xs)
  have mono: "b \<le> fold max xs b" for b :: nat
    by (induction xs arbitrary: b) (auto intro: order_trans [OF max.cobounded2])
  show ?case
  proof (cases "k = x")
    case True
    have "x \<le> max x a" by simp
    also have "\<dots> \<le> fold max xs (max x a)" by (rule mono)
    finally show ?thesis using True by simp
  next
    case False
    with Cons.prems have "k \<in> set xs" by simp
    then show ?thesis using Cons.IH by simp
  qed
qed

lemma next_pk_fresh: "next_pk ks \<notin> set ks"
proof
  assume "next_pk ks \<in> set ks"
  then have "next_pk ks \<le> fold max ks 0" by (rule le_fold_max)
  then show False by (simp add: next_pk_def)
qed

lemma well_keyed_create:
  assumes "well_keyed rows" and "rhp_create p r rows = Inr rows'"
  shows "well_keyed rows'"
proof -
  from assms(2) have n: "(p, r) \<notin> set (map pair_of rows)"
    and r: "rows' = rows @ [\<lparr>rhp_pk = next_pk (map rhp_pk rows), permission = p, role = r\<rparr>]"
    by (auto simp: rhp_create_def split: if_splits)
  from next_pk_fresh [of "map rhp_pk rows"] assms(1) n show ?thesis
    unfolding r well_keyed_def by (simp add: pair_of_def)
qed

lemma update_untouched:
  "k \<notin> set (map rhp_pk rows) \<Longrightarrow>
     map (\<lambda>x. if rhp_pk x = k then x\<lparr>permission := p, role := r\<rparr> else x) rows = rows"
  by (induction rows) auto

lemma pairs_after_update:
  "set (map pair_of (map (\<lambda>x. if rhp_pk x = k then x\<lparr>permission := p, role := r\<rparr> else x) rows))
     \<subseteq> insert (p, r) (set (map pair_of (filter (\<lambda>x. rhp_pk x \<noteq> k) rows)))"
  by (auto simp: pair_of_def)

lemma distinct_update:
  assumes "distinct (map rhp_pk rows)" and "distinct (map pair_of rows)"
    and "(p, r) \<notin> set (map pair_of (filter (\<lambda>x. rhp_pk x \<noteq> k) rows))"
  shows "distinct (map pair_of (map (\<lambda>x. if rhp_pk x = k then x\<lparr>permission := p, role := r\<rparr> else x) rows))"
  using assms
proof (induction rows)
  case Nil
  then show ?case by simp
next
  case (Cons x xs)
  let ?u = "\<lambda>x. if rhp_pk x = k then x\<lparr>permission := p, role := r\<rparr> else x"
  show ?case
  proof (cases "rhp_pk x = k")
    case True
    with Cons.prems(1) have "k \<notin> set (map rhp_pk xs)" by auto
    then have same: "map ?u xs = xs" and all: "filter (\<lambda>x. rhp_pk x \<noteq> k) xs = xs"
      by (auto simp: update_untouched filter_id_conv)
    from Cons.prems(3) True all have "(p, r) \<notin> set (map pair_of xs)" by simp
    with Cons.prems(2) True show ?thesis by (simp add: same pair_of_def)
  next
    case False
    with Cons.prems have ih: "distinct (map pair_of (map ?u xs))"
      by (intro Cons.IH) auto
    from Cons.prems(3) False have ne: "pair_of x \<noteq> (p, r)" by auto
    from Cons.prems(2) have "pair_of x \<notin> set (map pair_of (filter (\<lambda>x. rhp_pk x \<noteq> k) xs))" by auto
    with ne pairs_after_update [where k = k and p = p and r = r and rows = xs] have "pair_of x \<notin> set (map pair_of (map ?u xs))"
      by blast
    with ih False show ?thesis by simp
  qed
qed

lemma well_keyed_update:
  assumes "well_keyed rows" and "rhp_update k p r rows = Inr rows'"
  shows "well_keyed rows'"
proof -
  let ?u = "\<lambda>x. if rhp_pk x = k then x\<lparr>permission := p, role := r\<rparr> else x"
  from assms(2) have n: "(p, r) \<notin> set (map pair_of (filter (\<lambda>x. rhp_pk x \<noteq> k) rows))"
    and r: "rows' = map ?u rows"
    by (auto simp: rhp_update_def split: if_splits)
  have pk: "map rhp_pk (map ?u rows) = map rhp_pk rows" by (induction rows) auto
  from assms(1) have d1: "distinct (map rhp_pk rows)" and d2: "distinct (map pair_of rows)"
    by (simp_all add: well_keyed_def)
  have a: "distinct (map rhp_pk (map ?u rows))" unfolding pk by (rule d1)
  have b: "distinct (map pair_of (map ?u rows))" by (rule distinct_update [OF d1 d2 n])
  show ?thesis unfolding r well_keyed_def using a b by (rule conjI)
qed

lemma well_keyed_delete: "well_keyed rows \<Longrightarrow> well_keyed (rhp_delete k rows)"
  by (simp add: well_keyed_def rhp_delete_def distinct_map_filter)

lemma reachable_well_keyed: "reachable rows \<Longrightarrow> well_keyed rows"
proof (induction rule: reachable.induct)
  case empty
  then show ?case by (simp add: well_keyed_def)
next
  case (created rows p r rows')
  then show ?case by (blast intro: well_keyed_create)
next
  case (updated rows k p r rows')
  then show ?case by (blast intro: well_keyed_update)
next
  case (deleted rows k)
  then show ?case by (simp add: well_keyed_delete)
qed

text \<open>
  C10. In every table reached from the empty one by creations, updates and deletions under
  the declared uniqueness of the pair of permission and role, at most one row links a
  given permission and a given role. The witness creates a row and shows that creating
  the same pair again is refused.
\<close>

theorem role_permission_unique:
  assumes "reachable rows"
  shows "length (links p r rows) \<le> 1"
proof -
  from reachable_well_keyed [OF assms] have "distinct (map pair_of rows)"
    by (simp add: well_keyed_def)
  then have "length (filter (\<lambda>x. pair_of x = (p, r)) rows) \<le> 1" by (rule filter_key_distinct)
  then show ?thesis by (simp add: links_def pair_of_def)
qed

theorem role_permission_unique_witness:
  "reachable [\<lparr>rhp_pk = 1, permission = 4, role = 9\<rparr>]
   \<and> rhp_create 4 9 [\<lparr>rhp_pk = 1, permission = 4, role = 9\<rparr>] = Inl IntegrityError
   \<and> length (links 4 9 [\<lparr>rhp_pk = 1, permission = 4, role = 9\<rparr>]) \<le> 1
   \<and> links 4 9 [\<lparr>rhp_pk = 1, permission = 4, role = 9\<rparr>] = [\<lparr>rhp_pk = 1, permission = 4, role = 9\<rparr>]"
proof -
  have c: "rhp_create 4 9 [] = Inr [\<lparr>rhp_pk = 1, permission = 4, role = 9\<rparr>]"
    by (simp add: rhp_create_def next_pk_def)
  have h: "reachable [\<lparr>rhp_pk = 1, permission = 4, role = 9\<rparr>]"
    by (rule reachable.created [OF reachable.empty c])
  have d: "rhp_create 4 9 [\<lparr>rhp_pk = 1, permission = 4, role = 9\<rparr>] = Inl IntegrityError"
    by (simp add: rhp_create_def pair_of_def)
  have l: "links 4 9 [\<lparr>rhp_pk = 1, permission = 4, role = 9\<rparr>] = [\<lparr>rhp_pk = 1, permission = 4, role = 9\<rparr>]"
    by (simp add: links_def)
  from h d l role_permission_unique [OF h, of 4 9] show ?thesis by simp
qed

subsection \<open>The migration\<close>

lemma str_nat_1: "str_nat (Suc 0) = ''1''"
  by (simp add: str_nat.simps digit_char_def)

lemma str_nat_2: "str_nat (Suc (Suc 0)) = ''2''"
proof -
  have "str_nat 2 = ''2''" by (simp add: str_nat.simps [of 2] digit_char_def)
  then show ?thesis by (simp add: numeral_2_eq_2)
qed

lemma migrate_c3_first:
  "migrate_diu_type_data db_c3 = Inr (\<lparr>created_types = 1, updated_rows = 1\<rparr>, db_c3_once)"
  by (simp add: migrate_diu_type_data_def unique_values_def db_c3_def db_c3_once_def
      get_or_create_def next_pk_def str_nat_1 Let_def)

lemma migrate_c3_second:
  "migrate_diu_type_data db_c3_once = Inr (\<lparr>created_types = 1, updated_rows = 1\<rparr>, db_c3_twice)"
  by (simp add: migrate_diu_type_data_def unique_values_def db_c3_once_def db_c3_twice_def
      get_or_create_def next_pk_def str_nat_2 Let_def)

text \<open>
  The claim of idempotence fails: the first run stores the identifier 1 as the text
  \<open>''1''\<close>; the second run reads that text as a free-text value, creates a type row
  named \<open>''1''\<close> and updates the history row again.
\<close>

theorem migration_not_idempotent_counterexample:
  "migrate_diu_type_data db_c3 = Inr (\<lparr>created_types = 1, updated_rows = 1\<rparr>, db_c3_once)
   \<and> migrate_diu_type_data db_c3_once = Inr (\<lparr>created_types = 1, updated_rows = 1\<rparr>, db_c3_twice)
   \<and> length (diu_types db_c3_twice) = length (diu_types db_c3_once) + 1
   \<and> histories db_c3_twice \<noteq> histories db_c3_once"
  by (simp add: migrate_c3_first migrate_c3_second) (simp add: db_c3_once_def db_c3_twice_def)

lemma get_or_create_distinct:
  assumes "distinct (map diu_name ts)"
  shows "\<exists>t created new. get_or_create v ts = Inr (t, created, ts @ new)
           \<and> distinct (map diu_name (ts @ new))"
proof -
  from filter_key_distinct [OF assms, of v]
  consider "filter (\<lambda>t. diu_name t = v) ts = []" | t where "filter (\<lambda>t. diu_name t = v) ts = [t]"
    by (cases "filter (\<lambda>t. diu_name t = v) ts"; cases "tl (filter (\<lambda>t. diu_name t = v) ts)") auto
  then show ?thesis
  proof cases
    case 1
    let ?t = "\<lparr>diu_pk = next_pk (map diu_pk ts), diu_name = v\<rparr>"
    from 1 have "v \<notin> set (map diu_name ts)" by (auto simp: filter_empty_conv)
    with assms have "distinct (map diu_name (ts @ [?t]))" by simp
    moreover from 1 have "get_or_create v ts = Inr (?t, True, ts @ [?t])"
      by (simp add: get_or_create_def Let_def)
    ultimately show ?thesis by blast
  next
    case 2
    then have "get_or_create v ts = Inr (t, False, ts @ [])" by (simp add: get_or_create_def)
    moreover from assms have "distinct (map diu_name (ts @ []))" by simp
    ultimately show ?thesis by blast
  qed
qed

lemma create_types_distinct:
  assumes "distinct (map diu_name ts)"
  shows "\<exists>m c new. create_types vs m0 n0 ts = Inr (m, c, ts @ new)
           \<and> distinct (map diu_name (ts @ new))"
  using assms
proof (induction vs arbitrary: m0 n0 ts)
  case Nil
  then show ?case by simp
next
  case (Cons v vs)
  from get_or_create_distinct [OF Cons.prems, of v]
  obtain t created new where g: "get_or_create v ts = Inr (t, created, ts @ new)"
    and d: "distinct (map diu_name (ts @ new))" by blast
  from Cons.IH [OF d, of "m0(v \<mapsto> diu_pk t)" "if created then Suc n0 else n0"]
  obtain m c new' where c: "create_types vs (m0(v \<mapsto> diu_pk t)) (if created then Suc n0 else n0) (ts @ new)
      = Inr (m, c, (ts @ new) @ new')" and d': "distinct (map diu_name ((ts @ new) @ new'))"
    by blast
  from g c have "create_types (v # vs) m0 n0 ts = Inr (m, c, ts @ (new @ new'))" by simp
  moreover from d' have "distinct (map diu_name (ts @ (new @ new')))" by simp
  ultimately show ?case by blast
qed

lemma migrate_distinct:
  assumes "distinct (map diu_name (diu_types db))"
  shows "\<exists>r db' new. migrate_diu_type_data db = Inr (r, db')
           \<and> diu_types db' = diu_types db @ new \<and> distinct (map diu_name (diu_types db'))"
proof -
  from create_types_distinct [OF assms, of "unique_values db" Map.empty 0]
  obtain m c new where "create_types (unique_values db) Map.empty 0 (diu_types db)
      = Inr (m, c, diu_types db @ new)" and "distinct (map diu_name (diu_types db @ new))"
    by blast
  then show ?thesis
    by (simp add: migrate_diu_type_data_def split: prod.splits)
qed

text \<open>
  C3 (as amended). The type rows are created by get-or-create: when the names of the type
  rows are distinct, the forward transform run twice succeeds, keeps every existing type
  row, only appends rows, and leaves the names distinct; no run creates a row whose name
  an existing row has.
\<close>

theorem migrate_twice_get_or_create:
  assumes "distinct (map diu_name (diu_types db))"
  shows "\<exists>r db' new. migrate_twice db = Inr (r, db')
           \<and> diu_types db' = diu_types db @ new \<and> distinct (map diu_name (diu_types db'))"
proof -
  from migrate_distinct [OF assms]
  obtain r1 db1 new1 where 1: "migrate_diu_type_data db = Inr (r1, db1)"
    "diu_types db1 = diu_types db @ new1" "distinct (map diu_name (diu_types db1))" by blast
  from migrate_distinct [OF 1(3)]
  obtain r2 db2 new2 where 2: "migrate_diu_type_data db1 = Inr (r2, db2)"
    "diu_types db2 = diu_types db1 @ new2" "distinct (map diu_name (diu_types db2))" by blast
  from 1 2 have "migrate_twice db = Inr (r2, db2)" "diu_types db2 = diu_types db @ (new1 @ new2)"
    by (simp_all add: migrate_twice_def)
  with 2(3) show ?thesis by blast
qed

theorem migrate_twice_get_or_create_witness:
  "distinct (map diu_name (diu_types db_c3))
   \<and> migrate_twice db_c3 = Inr (\<lparr>created_types = 1, updated_rows = 1\<rparr>, db_c3_twice)
   \<and> distinct (map diu_name (diu_types db_c3_twice))"
proof -
  have h: "distinct (map diu_name (diu_types db_c3))" by (simp add: db_c3_def)
  have t: "migrate_twice db_c3 = Inr (\<lparr>created_types = 1, updated_rows = 1\<rparr>, db_c3_twice)"
    by (simp add: migrate_twice_def migrate_c3_first migrate_c3_second)
  from migrate_twice_get_or_create [OF h] t
  have "distinct (map diu_name (diu_types db_c3_twice))" by auto
  with h t show ?thesis by simp
qed

end
